theory Spec2Isabelle
  imports Complex_Main "HOL-Library.Word" "HOL-Library.Sublist"
begin

section \<open>Bytes, exceptions and results\<close>

text \<open>
  The model follows \<^verbatim>\<open>thriftpy/transport.py\<close>. A Python \<^verbatim>\<open>bytes\<close> value is a list of
  8-bit words. A method that may raise returns a sum (\<open>Inl\<close> the exception) paired with
  the state the object is left in, so that what a raise leaves behind is visible.
\<close>

type_synonym byte = "8 word"
type_synonym bytes = "byte list"

text \<open>The positional arguments of a \<^verbatim>\<open>socket.error\<close>: \<^verbatim>\<open>e.args\<close>.\<close>

datatype pyarg = IntArg int | StrArg string

text \<open>
  The exceptions that the file raises or lets through. \<open>TTransportException\<close> carries
  its \<^verbatim>\<open>type\<close> and its \<^verbatim>\<open>message\<close> (every raise of the file gives both).
  \<open>AttributeError\<close> is what Python raises for a method call on \<^verbatim>\<open>None\<close>,
  \<open>IndexError\<close> for \<^verbatim>\<open>e.args[0]\<close> on empty \<^verbatim>\<open>args\<close>, and \<open>ValueError\<close> is what
  \<^verbatim>\<open>settimeout\<close> raises for a negative timeout.
\<close>

datatype exn =
    EOFError
  | AttributeError string
  | IndexError
  | ValueError string
  | TTransportException int string
  | socket_error "pyarg list"

definition UNKNOWN :: int where "UNKNOWN = 0"
definition NOT_OPEN :: int where "NOT_OPEN = 1"
definition ALREADY_OPEN :: int where "ALREADY_OPEN = 2"
definition TIMED_OUT :: int where "TIMED_OUT = 3"
definition END_OF_FILE :: int where "END_OF_FILE = 4"

section \<open>TTransportBase\<close>

text \<open>
  The methods of a transport object with state \<open>'s\<close>, as the callers of the file use
  them: \<^verbatim>\<open>isOpen\<close>, \<^verbatim>\<open>open\<close>, \<^verbatim>\<open>close\<close>, \<^verbatim>\<open>read\<close>, \<^verbatim>\<open>write\<close>, \<^verbatim>\<open>flush\<close>.
\<close>

record 's TTransport =
  t_isOpen :: "'s \<Rightarrow> (exn + bool) \<times> 's"
  t_open :: "'s \<Rightarrow> (exn + unit) \<times> 's"
  t_close :: "'s \<Rightarrow> (exn + unit) \<times> 's"
  t_read :: "int \<Rightarrow> 's \<Rightarrow> (exn + bytes) \<times> 's"
  t_write :: "bytes \<Rightarrow> 's \<Rightarrow> (exn + unit) \<times> 's"
  t_flush :: "'s \<Rightarrow> (exn + unit) \<times> 's"

text \<open>
  \<^verbatim>\<open>readAll\<close>: the loop \<^verbatim>\<open>while (have < sz)\<close> with its variables \<^verbatim>\<open>buff\<close> and \<^verbatim>\<open>have\<close>.
  Both are updated before the test of \<^verbatim>\<open>len(chunk) == 0\<close>, as in the source. The loop
  ends for every \<^verbatim>\<open>read\<close>: a chunk that does not raise \<^verbatim>\<open>EOFError\<close> is not empty, so
  \<^verbatim>\<open>sz - have\<close> decreases.
\<close>

function readAll_loop ::
  "(int \<Rightarrow> 's \<Rightarrow> (exn + bytes) \<times> 's) \<Rightarrow> int \<Rightarrow> bytes \<Rightarrow> int \<Rightarrow> 's \<Rightarrow> (exn + bytes) \<times> 's"
where
  "readAll_loop rd sz buff have s =
     (if have < sz then
        (case rd (sz - have) s of
           (Inl e, s1) \<Rightarrow> (Inl e, s1)
         | (Inr chunk, s1) \<Rightarrow>
             (let have1 = have + int (length chunk); buff1 = buff @ chunk in
              if length chunk = 0 then (Inl EOFError, s1)
              else readAll_loop rd sz buff1 have1 s1))
      else (Inr buff, s))"
  by pat_completeness auto
termination
  by (relation "measure (\<lambda>(rd, sz, buff, have, s). nat (sz - have))") auto

declare readAll_loop.simps [simp del]

definition readAll ::
  "(int \<Rightarrow> 's \<Rightarrow> (exn + bytes) \<times> 's) \<Rightarrow> int \<Rightarrow> 's \<Rightarrow> (exn + bytes) \<times> 's"
where
  "readAll rd sz s = readAll_loop rd sz [] 0 s"

text \<open>
  A transport whose \<^verbatim>\<open>read\<close> yields the pieces of a script in sequence, whatever size
  is asked for, and the empty string once the script is used up.
\<close>

definition chunked_read :: "int \<Rightarrow> bytes list \<Rightarrow> (exn + bytes) \<times> bytes list" where
  "chunked_read sz script = (case script of [] \<Rightarrow> (Inr [], []) | c # cs \<Rightarrow> (Inr c, cs))"

text \<open>The same as a transport object: the other methods do nothing.\<close>

definition chunked_transport :: "(bytes list) TTransport" where
  "chunked_transport =
     \<lparr>t_isOpen = (\<lambda>s. (Inr True, s)),
      t_open = (\<lambda>s. (Inr (), s)),
      t_close = (\<lambda>s. (Inr (), s)),
      t_read = chunked_read,
      t_write = (\<lambda>b s. (Inr (), s)),
      t_flush = (\<lambda>s. (Inr (), s))\<rparr>"

section \<open>BytesIO\<close>

text \<open>
  \<^verbatim>\<open>io.BytesIO\<close>: the contents and the position. \<^verbatim>\<open>read(sz)\<close> returns what is left
  from the position on when \<open>sz\<close> is negative, and at most \<open>sz\<close> bytes of it otherwise, and
  moves the position by what it returns. \<^verbatim>\<open>write(b)\<close> overwrites from the position on
  (filling with zero bytes when the position is beyond the end).
\<close>

record BytesIO =
  buf :: bytes
  pos :: nat

definition BytesIO_init :: "bytes \<Rightarrow> BytesIO" where
  "BytesIO_init initial = \<lparr>buf = initial, pos = 0\<rparr>"

definition BytesIO_read :: "int \<Rightarrow> BytesIO \<Rightarrow> bytes \<times> BytesIO" where
  "BytesIO_read sz io =
     (let rest = drop (pos io) (buf io);
          ret = (if sz < 0 then rest else take (nat sz) rest)
      in (ret, io\<lparr>pos := pos io + length ret\<rparr>))"

definition BytesIO_write :: "bytes \<Rightarrow> BytesIO \<Rightarrow> BytesIO" where
  "BytesIO_write b io =
     io\<lparr>buf := take (pos io) (buf io) @ replicate (pos io - length (buf io)) 0 @ b
                 @ drop (pos io + length b) (buf io),
        pos := pos io + length b\<rparr>"

definition BytesIO_getvalue :: "BytesIO \<Rightarrow> bytes" where
  "BytesIO_getvalue io = buf io"

section \<open>TBufferedTransport\<close>

text \<open>
  The fields \<^verbatim>\<open>__trans\<close>, \<^verbatim>\<open>__wbuf\<close>, \<^verbatim>\<open>__rbuf\<close> and \<^verbatim>\<open>__rbuf_size\<close>. The wrapped
  transport is held as its state \<open>'s\<close>; its methods are the parameter \<open>ops\<close> of every
  method below. The state of the wrapped transport is kept also when it raises.
\<close>

record 's TBufferedTransport =
  b_trans :: 's
  wbuf :: BytesIO
  rbuf :: BytesIO
  rbuf_size :: int

definition DEFAULT_BUFFER :: int where "DEFAULT_BUFFER = 4096"

definition TBufferedTransport_init :: "'s \<Rightarrow> int \<Rightarrow> 's TBufferedTransport" where
  "TBufferedTransport_init tr sz =
     \<lparr>b_trans = tr, wbuf = BytesIO_init [], rbuf = BytesIO_init [], rbuf_size = sz\<rparr>"

definition TBufferedTransport_isOpen ::
  "'s TTransport \<Rightarrow> 's TBufferedTransport \<Rightarrow> (exn + bool) \<times> 's TBufferedTransport" where
  "TBufferedTransport_isOpen ops t =
     (case t_isOpen ops (b_trans t) of (r, s1) \<Rightarrow> (r, t\<lparr>b_trans := s1\<rparr>))"

definition TBufferedTransport_open ::
  "'s TTransport \<Rightarrow> 's TBufferedTransport \<Rightarrow> (exn + unit) \<times> 's TBufferedTransport" where
  "TBufferedTransport_open ops t =
     (case t_open ops (b_trans t) of (r, s1) \<Rightarrow> (r, t\<lparr>b_trans := s1\<rparr>))"

definition TBufferedTransport_close ::
  "'s TTransport \<Rightarrow> 's TBufferedTransport \<Rightarrow> (exn + unit) \<times> 's TBufferedTransport" where
  "TBufferedTransport_close ops t =
     (case t_close ops (b_trans t) of (r, s1) \<Rightarrow> (r, t\<lparr>b_trans := s1\<rparr>))"

definition TBufferedTransport_read ::
  "'s TTransport \<Rightarrow> int \<Rightarrow> 's TBufferedTransport \<Rightarrow> (exn + bytes) \<times> 's TBufferedTransport" where
  "TBufferedTransport_read ops sz t =
     (case BytesIO_read sz (rbuf t) of
        (ret, rb) \<Rightarrow>
          (let t1 = t\<lparr>rbuf := rb\<rparr> in
           if length ret \<noteq> 0 then (Inr ret, t1)
           else
             (case t_read ops (max sz (rbuf_size t1)) (b_trans t1) of
                (Inl e, s1) \<Rightarrow> (Inl e, t1\<lparr>b_trans := s1\<rparr>)
              | (Inr fresh, s1) \<Rightarrow>
                  (case BytesIO_read sz (BytesIO_init fresh) of
                     (ret2, rb2) \<Rightarrow> (Inr ret2, t1\<lparr>b_trans := s1, rbuf := rb2\<rparr>)))))"

definition TBufferedTransport_write ::
  "'s TTransport \<Rightarrow> bytes \<Rightarrow> 's TBufferedTransport \<Rightarrow> (exn + unit) \<times> 's TBufferedTransport" where
  "TBufferedTransport_write ops b t = (Inr (), t\<lparr>wbuf := BytesIO_write b (wbuf t)\<rparr>)"

text \<open>
  \<^verbatim>\<open>flush\<close>: \<^verbatim>\<open>__wbuf\<close> is replaced by a new \<^verbatim>\<open>BytesIO()\<close> before the wrapped transport
  is called, so the state returned with an exception of the wrapped \<^verbatim>\<open>write\<close> or
  \<^verbatim>\<open>flush\<close> has the new buffer already.
\<close>

definition TBufferedTransport_flush ::
  "'s TTransport \<Rightarrow> 's TBufferedTransport \<Rightarrow> (exn + unit) \<times> 's TBufferedTransport" where
  "TBufferedTransport_flush ops t =
     (let out = BytesIO_getvalue (wbuf t);
          t1 = t\<lparr>wbuf := BytesIO_init []\<rparr>
      in case t_write ops out (b_trans t1) of
           (Inl e, s1) \<Rightarrow> (Inl e, t1\<lparr>b_trans := s1\<rparr>)
         | (Inr u, s1) \<Rightarrow>
             (case t_flush ops s1 of (r, s2) \<Rightarrow> (r, t1\<lparr>b_trans := s2\<rparr>)))"

definition cstringio_buf :: "'s TBufferedTransport \<Rightarrow> BytesIO" where
  "cstringio_buf t = rbuf t"

text \<open>
  \<^verbatim>\<open>cstringio_refill\<close>: the two conditional statements in sequence, each either raising
  or giving the next value of \<^verbatim>\<open>retstring\<close>. \<^verbatim>\<open>self.__trans.readAll\<close> is the \<^verbatim>\<open>readAll\<close>
  of \<open>TTransportBase\<close> over the wrapped transport's \<^verbatim>\<open>read\<close>.
\<close>

definition cstringio_refill ::
  "'s TTransport \<Rightarrow> bytes \<Rightarrow> int \<Rightarrow> 's TBufferedTransport \<Rightarrow> (exn + BytesIO) \<times> 's TBufferedTransport"
where
  "cstringio_refill ops partialread reqlen t =
     (case (if reqlen < rbuf_size t then
              (case t_read ops (rbuf_size t) (b_trans t) of
                 (Inl e, s1) \<Rightarrow> (Inl e, s1)
               | (Inr d, s1) \<Rightarrow> (Inr (partialread @ d), s1))
            else (Inr partialread, b_trans t)) of
        (Inl e, s1) \<Rightarrow> (Inl e, t\<lparr>b_trans := s1\<rparr>)
      | (Inr retstring, s1) \<Rightarrow>
          (case (if int (length retstring) < reqlen then
                   (case readAll (t_read ops) (reqlen - int (length retstring)) s1 of
                      (Inl e, s2) \<Rightarrow> (Inl e, s2)
                    | (Inr d, s2) \<Rightarrow> (Inr (retstring @ d), s2))
                 else (Inr retstring, s1)) of
             (Inl e, s2) \<Rightarrow> (Inl e, t\<lparr>b_trans := s2\<rparr>)
           | (Inr retstring2, s2) \<Rightarrow>
               (let t1 = t\<lparr>b_trans := s2, rbuf := BytesIO_init retstring2\<rparr>
                in (Inr (rbuf t1), t1))))"

text \<open>Calling \<^verbatim>\<open>write\<close> once for each element of a list, in order.\<close>

fun TBufferedTransport_writes ::
  "'s TTransport \<Rightarrow> bytes list \<Rightarrow> 's TBufferedTransport \<Rightarrow> 's TBufferedTransport" where
  "TBufferedTransport_writes ops [] t = t"
| "TBufferedTransport_writes ops (b # bs) t =
     TBufferedTransport_writes ops bs (snd (TBufferedTransport_write ops b t))"

subsection \<open>A wrapped transport that records its calls\<close>

text \<open>
  To count the calls a method makes on the wrapped transport, any transport is put
  behind a recorder: its state is paired with the list of the calls made so far, each
  with its argument and what it returned or raised.
\<close>

datatype call =
    CallIsOpen
  | CallOpen
  | CallClose
  | CallRead int "exn + bytes"
  | CallWrite bytes "exn + unit"
  | CallFlush "exn + unit"

definition logged :: "'s TTransport \<Rightarrow> (call list \<times> 's) TTransport" where
  "logged ops =
     \<lparr>t_isOpen = (\<lambda>(lg, s). case t_isOpen ops s of (r, s1) \<Rightarrow> (r, lg @ [CallIsOpen], s1)),
      t_open = (\<lambda>(lg, s). case t_open ops s of (r, s1) \<Rightarrow> (r, lg @ [CallOpen], s1)),
      t_close = (\<lambda>(lg, s). case t_close ops s of (r, s1) \<Rightarrow> (r, lg @ [CallClose], s1)),
      t_read = (\<lambda>sz (lg, s). case t_read ops sz s of (r, s1) \<Rightarrow> (r, lg @ [CallRead sz r], s1)),
      t_write = (\<lambda>b (lg, s). case t_write ops b s of (r, s1) \<Rightarrow> (r, lg @ [CallWrite b r], s1)),
      t_flush = (\<lambda>(lg, s). case t_flush ops s of (r, s1) \<Rightarrow> (r, lg @ [CallFlush r], s1))\<rparr>"

text \<open>The bytes that the recorded \<^verbatim>\<open>read\<close> calls returned, in order.\<close>

fun bytes_read :: "call list \<Rightarrow> bytes" where
  "bytes_read [] = []"
| "bytes_read (CallRead sz (Inr d) # cs) = d @ bytes_read cs"
| "bytes_read (c # cs) = bytes_read cs"

section \<open>The socket library\<close>

text \<open>
  The calls of the modules \<^verbatim>\<open>socket\<close>, \<^verbatim>\<open>sys\<close> and \<^verbatim>\<open>errno\<close> that the file makes are
  parameters of the model, over a state \<open>'w\<close> of the operating system. A call that may
  raise \<^verbatim>\<open>socket.error\<close> returns \<open>Inl\<close> of the exception's \<^verbatim>\<open>args\<close>. A socket object is
  named by a number. \<^verbatim>\<open>send\<close> returns the number of bytes it took, a natural number.
  \<^verbatim>\<open>settimeout\<close> may raise any exception: a \<open>ValueError\<close> for a negative timeout, which
  is not a \<^verbatim>\<open>socket.error\<close>, or a \<^verbatim>\<open>socket.error\<close>. \<^verbatim>\<open>close\<close> is taken to return
  normally.
\<close>

datatype family = AF_UNSPEC | AF_UNIX | AF_INET | AF_INET6
datatype socktype = SOCK_STREAM | SOCK_DGRAM
datatype ai_flag = AI_PASSIVE | AI_ADDRCONFIG
datatype sockaddr = UnixAddr string | InetAddr string int

type_synonym addrinfo = "family \<times> socktype \<times> int option \<times> string option \<times> sockaddr"
type_synonym sock = nat

record 'w socket_api =
  getaddrinfo ::
    "string \<Rightarrow> int \<Rightarrow> family \<Rightarrow> socktype \<Rightarrow> int \<Rightarrow> ai_flag set \<Rightarrow> 'w
      \<Rightarrow> (pyarg list + addrinfo list) \<times> 'w"
  socket_socket :: "family \<Rightarrow> socktype \<Rightarrow> 'w \<Rightarrow> (pyarg list + sock) \<times> 'w"
  settimeout :: "sock \<Rightarrow> real option \<Rightarrow> 'w \<Rightarrow> (exn + unit) \<times> 'w"
  connect :: "sock \<Rightarrow> sockaddr \<Rightarrow> 'w \<Rightarrow> (pyarg list + unit) \<times> 'w"
  recv :: "sock \<Rightarrow> int \<Rightarrow> 'w \<Rightarrow> (pyarg list + bytes) \<times> 'w"
  send :: "sock \<Rightarrow> bytes \<Rightarrow> 'w \<Rightarrow> (pyarg list + nat) \<times> 'w"
  sock_close :: "sock \<Rightarrow> 'w \<Rightarrow> 'w"
  sys_platform :: string
  ECONNRESET :: int

text \<open>The components \<^verbatim>\<open>res[0]\<close>, \<^verbatim>\<open>res[1]\<close> and \<^verbatim>\<open>res[4]\<close> of a candidate.\<close>

definition res_0 :: "addrinfo \<Rightarrow> family" where
  "res_0 res = fst res"

definition res_1 :: "addrinfo \<Rightarrow> socktype" where
  "res_1 res = fst (snd res)"

definition res_4 :: "addrinfo \<Rightarrow> sockaddr" where
  "res_4 res = snd (snd (snd (snd res)))"

section \<open>TSocketBase and TSocket\<close>

record TSocket =
  host :: string
  port :: int
  handle :: "sock option"
  unix_socket :: "string option"
  timeout :: "real option"

definition TSocket_init :: "string \<Rightarrow> int \<Rightarrow> string option \<Rightarrow> TSocket" where
  "TSocket_init h p u = \<lparr>host = h, port = p, handle = None, unix_socket = u, timeout = None\<rparr>"

definition resolveAddr :: "'w socket_api \<Rightarrow> TSocket \<Rightarrow> 'w \<Rightarrow> (exn + addrinfo list) \<times> 'w" where
  "resolveAddr api s w =
     (case unix_socket s of
        Some p \<Rightarrow> (Inr [(AF_UNIX, SOCK_STREAM, None, None, UnixAddr p)], w)
      | None \<Rightarrow>
          (case getaddrinfo api (host s) (port s) AF_UNSPEC SOCK_STREAM 0
                  {AI_PASSIVE, AI_ADDRCONFIG} w of
             (Inl args, w1) \<Rightarrow> (Inl (socket_error args), w1)
           | (Inr res0, w1) \<Rightarrow> (Inr res0, w1)))"

definition TSocketBase_close :: "'w socket_api \<Rightarrow> TSocket \<Rightarrow> 'w \<Rightarrow> (exn + unit) \<times> TSocket \<times> 'w" where
  "TSocketBase_close api s w =
     (case handle s of
        None \<Rightarrow> (Inr (), s, w)
      | Some h \<Rightarrow> (Inr (), s\<lparr>handle := None\<rparr>, sock_close api h w))"

definition setHandle :: "sock option \<Rightarrow> TSocket \<Rightarrow> TSocket" where
  "setHandle h s = s\<lparr>handle := h\<rparr>"

definition TSocket_isOpen :: "TSocket \<Rightarrow> bool" where
  "TSocket_isOpen s = (handle s \<noteq> None)"


text \<open>
  The loop of \<^verbatim>\<open>open\<close> over the candidates. \<^verbatim>\<open>self.handle\<close> is assigned before
  \<^verbatim>\<open>settimeout\<close> and \<^verbatim>\<open>connect\<close> are tried. Only \<^verbatim>\<open>connect\<close> stands in the inner
  \<^verbatim>\<open>try\<close>: what \<^verbatim>\<open>socket.socket\<close> or \<^verbatim>\<open>settimeout\<close> raises leaves the loop. The
  candidates are distinct objects, so \<^verbatim>\<open>res is not res0[-1]\<close> holds exactly when
  candidates are left after \<open>res\<close>.
\<close>

fun open_loop :: "'w socket_api \<Rightarrow> addrinfo list \<Rightarrow> TSocket \<Rightarrow> 'w \<Rightarrow> (exn + unit) \<times> TSocket \<times> 'w" where
  "open_loop api [] s w = (Inr (), s, w)"
| "open_loop api (res # rest) s w =
     (case socket_socket api (res_0 res) (res_1 res) w of
        (Inl args, w1) \<Rightarrow> (Inl (socket_error args), s, w1)
      | (Inr h, w1) \<Rightarrow>
          (let s1 = s\<lparr>handle := Some h\<rparr>
           in case settimeout api h (timeout s1) w1 of
                (Inl x, w2) \<Rightarrow> (Inl x, s1, w2)
              | (Inr u, w2) \<Rightarrow>
                  (case connect api h (res_4 res) w2 of
                     (Inl args, w3) \<Rightarrow>
                       if rest \<noteq> [] then open_loop api rest s1 w3
                       else (Inl (socket_error args), s1, w3)
                   | (Inr u, w3) \<Rightarrow> (Inr (), s1, w3))))"

text \<open>The format \<^verbatim>\<open>%d\<close> of an integer.\<close>

function string_of_nat :: "nat \<Rightarrow> string" where
  "string_of_nat n =
     (if n < 10 then [''0123456789'' ! n]
      else string_of_nat (n div 10) @ [''0123456789'' ! (n mod 10)])"
  by pat_completeness auto
termination
  by (relation "measure id") auto

declare string_of_nat.simps [simp del]

definition format_d :: "int \<Rightarrow> string" where
  "format_d i = (if i < 0 then CHR ''-'' # string_of_nat (nat (- i)) else string_of_nat (nat i))"

text \<open>
  The message of \<^verbatim>\<open>open\<close>: \<^verbatim>\<open>if self._unix_socket\<close> is false for \<^verbatim>\<open>None\<close> and for the
  empty string.
\<close>

definition open_message :: "TSocket \<Rightarrow> string" where
  "open_message s =
     (case unix_socket s of
        Some p \<Rightarrow>
          if p \<noteq> [] then ''Could not connect to socket '' @ p
          else ''Could not connect to '' @ host s @ '':'' @ format_d (port s)
      | None \<Rightarrow> ''Could not connect to '' @ host s @ '':'' @ format_d (port s))"

definition TSocket_open :: "'w socket_api \<Rightarrow> TSocket \<Rightarrow> 'w \<Rightarrow> (exn + unit) \<times> TSocket \<times> 'w" where
  "TSocket_open api s w =
     (case (case resolveAddr api s w of
              (Inl e, w1) \<Rightarrow> (Inl e, s, w1)
            | (Inr res0, w1) \<Rightarrow> open_loop api res0 s w1) of
        (Inl e, s1, w1) \<Rightarrow>
          (case e of
             socket_error args \<Rightarrow> (Inl (TTransportException NOT_OPEN (open_message s1)), s1, w1)
           | _ \<Rightarrow> (Inl e, s1, w1))
      | (Inr u, s1, w1) \<Rightarrow> (Inr (), s1, w1))"

text \<open>
  \<^verbatim>\<open>read\<close>: \<^verbatim>\<open>self.handle.recv\<close> on \<^verbatim>\<open>None\<close> raises \<open>AttributeError\<close>, which is not a
  \<^verbatim>\<open>socket.error\<close>. In the handler, \<^verbatim>\<open>e.args[0]\<close> is read first.
\<close>

definition TSocket_read :: "'w socket_api \<Rightarrow> int \<Rightarrow> TSocket \<Rightarrow> 'w \<Rightarrow> (exn + bytes) \<times> TSocket \<times> 'w" where
  "TSocket_read api sz s w =
     (case handle s of
        None \<Rightarrow> (Inl (AttributeError ''recv''), s, w)
      | Some h \<Rightarrow>
          (case (case recv api h sz w of
                   (Inr buff, w1) \<Rightarrow> (Inr buff, s, w1)
                 | (Inl args, w1) \<Rightarrow>
                     (case args of
                        [] \<Rightarrow> (Inl IndexError, s, w1)
                      | a # _ \<Rightarrow>
                          if a = IntArg (ECONNRESET api)
                             \<and> (sys_platform api = ''darwin''
                                  \<or> prefix ''freebsd'' (sys_platform api))
                          then (case TSocketBase_close api s w1 of
                                  (_, s2, w2) \<Rightarrow> (Inr [], s2, w2))
                          else (Inl (socket_error args), s, w1))) of
             (Inl e, s1, w1) \<Rightarrow> (Inl e, s1, w1)
           | (Inr buff, s1, w1) \<Rightarrow>
               if length buff = 0
               then (Inl (TTransportException END_OF_FILE ''TSocket read 0 bytes''), s1, w1)
               else (Inr buff, s1, w1)))"

text \<open>
  The loop of \<^verbatim>\<open>write\<close>. It ends for every \<^verbatim>\<open>send\<close>: a count that does not raise is
  not zero, so \<^verbatim>\<open>have - sent\<close> decreases.
\<close>

function write_loop ::
  "'w socket_api \<Rightarrow> sock \<Rightarrow> nat \<Rightarrow> nat \<Rightarrow> bytes \<Rightarrow> 'w \<Rightarrow> (exn + unit) \<times> 'w" where
  "write_loop api h sent have buff w =
     (if sent < have then
        (case send api h buff w of
           (Inl args, w1) \<Rightarrow> (Inl (socket_error args), w1)
         | (Inr plus', w1) \<Rightarrow>
             if plus' = 0
             then (Inl (TTransportException END_OF_FILE ''TSocket sent 0 bytes''), w1)
             else write_loop api h (sent + plus') have (drop plus' buff) w1)
      else (Inr (), w))"
  by pat_completeness auto
termination
  by (relation "measure (\<lambda>(api, h, sent, have, buff, w). have - sent)") auto

declare write_loop.simps [simp del]

definition TSocket_write :: "'w socket_api \<Rightarrow> bytes \<Rightarrow> TSocket \<Rightarrow> 'w \<Rightarrow> (exn + unit) \<times> TSocket \<times> 'w" where
  "TSocket_write api buff s w =
     (case handle s of
        None \<Rightarrow> (Inl (TTransportException NOT_OPEN ''Transport not open''), s, w)
      | Some h \<Rightarrow> (case write_loop api h 0 (length buff) buff w of (r, w1) \<Rightarrow> (r, s, w1)))"

definition TSocket_flush :: "TSocket \<Rightarrow> 'w \<Rightarrow> (exn + unit) \<times> TSocket \<times> 'w" where
  "TSocket_flush s w = (Inr (), s, w)"

text \<open>A \<open>TSocket\<close> with its operating system, as a transport that can be wrapped.\<close>

definition TSocket_transport :: "'w socket_api \<Rightarrow> (TSocket \<times> 'w) TTransport" where
  "TSocket_transport api =
     \<lparr>t_isOpen = (\<lambda>(s, w). (Inr (TSocket_isOpen s), s, w)),
      t_open = (\<lambda>(s, w). TSocket_open api s w),
      t_close = (\<lambda>(s, w). TSocketBase_close api s w),
      t_read = (\<lambda>sz (s, w). TSocket_read api sz s w),
      t_write = (\<lambda>b (s, w). TSocket_write api b s w),
      t_flush = (\<lambda>(s, w). TSocket_flush s w)\<rparr>"

subsection \<open>A socket library that records its calls\<close>

datatype sock_call =
    SysGetaddrinfo string int
  | SysSocket family socktype "pyarg list + sock"
  | SysSettimeout sock "real option" "exn + unit"
  | SysConnect sock sockaddr "pyarg list + unit"
  | SysRecv sock int "pyarg list + bytes"
  | SysSend sock bytes "pyarg list + nat"
  | SysClose sock

definition logged_api :: "'w socket_api \<Rightarrow> (sock_call list \<times> 'w) socket_api" where
  "logged_api api =
     \<lparr>getaddrinfo = (\<lambda>h p f t pr fl (lg, w).
        case getaddrinfo api h p f t pr fl w of (r, w1) \<Rightarrow> (r, lg @ [SysGetaddrinfo h p], w1)),
      socket_socket = (\<lambda>f t (lg, w).
        case socket_socket api f t w of (r, w1) \<Rightarrow> (r, lg @ [SysSocket f t r], w1)),
      settimeout = (\<lambda>h tm (lg, w).
        case settimeout api h tm w of (r, w1) \<Rightarrow> (r, lg @ [SysSettimeout h tm r], w1)),
      connect = (\<lambda>h a (lg, w).
        case connect api h a w of (r, w1) \<Rightarrow> (r, lg @ [SysConnect h a r], w1)),
      recv = (\<lambda>h sz (lg, w).
        case recv api h sz w of (r, w1) \<Rightarrow> (r, lg @ [SysRecv h sz r], w1)),
      send = (\<lambda>h b (lg, w).
        case send api h b w of (r, w1) \<Rightarrow> (r, lg @ [SysSend h b r], w1)),
      sock_close = (\<lambda>h (lg, w). (lg @ [SysClose h], sock_close api h w)),
      sys_platform = sys_platform api,
      ECONNRESET = ECONNRESET api\<rparr>"


subsection \<open>A scripted socket library\<close>

text \<open>
  A stand-in for the operating system, as a test would write it: name resolution gives
  a fixed answer, \<^verbatim>\<open>settimeout\<close> raises \<open>ValueError\<close> for a negative timeout, \<^verbatim>\<open>connect\<close>
  succeeds on the listed addresses and is refused on all others, \<^verbatim>\<open>send\<close> takes at most
  \<open>per_send\<close> bytes of what it is given, \<^verbatim>\<open>recv\<close> gives the next entry of a script. Its
  state is the number of the next socket and the script.
\<close>

record mock_world =
  next_sock :: nat
  recv_script :: "(pyarg list + bytes) list"

definition mock_api ::
  "(pyarg list + addrinfo list) \<Rightarrow> sockaddr list \<Rightarrow> nat \<Rightarrow> string \<Rightarrow> mock_world socket_api" where
  "mock_api resolved connectable per_send platform =
     \<lparr>getaddrinfo = (\<lambda>h p f t pr fl w. (resolved, w)),
      socket_socket = (\<lambda>f t w. (Inr (next_sock w), w\<lparr>next_sock := Suc (next_sock w)\<rparr>)),
      settimeout = (\<lambda>h tm w.
        (case tm of
           None \<Rightarrow> Inr ()
         | Some x \<Rightarrow> if x < 0 then Inl (ValueError ''Timeout value out of range'') else Inr (),
         w)),
      connect = (\<lambda>h a w.
        (if a \<in> set connectable then Inr ()
         else Inl [IntArg 111, StrArg ''Connection refused''], w)),
      recv = (\<lambda>h sz w.
        case recv_script w of
          [] \<Rightarrow> (Inr [], w)
        | r # rs \<Rightarrow> (r, w\<lparr>recv_script := rs\<rparr>)),
      send = (\<lambda>h b w. (Inr (min per_send (length b)), w)),
      sock_close = (\<lambda>h w. w),
      sys_platform = platform,
      ECONNRESET = 104\<rparr>"



text \<open>Three candidates as name resolution gives them, for the examples.\<close>

definition three_candidates :: "addrinfo list" where
  "three_candidates =
     [(AF_INET, SOCK_STREAM, Some 6, Some [], InetAddr ''10.0.0.1'' 9090),
      (AF_INET, SOCK_STREAM, Some 6, Some [], InetAddr ''10.0.0.2'' 9090),
      (AF_INET, SOCK_STREAM, Some 6, Some [], InetAddr ''10.0.0.3'' 9090)]"

section \<open>Properties of readAll\<close>

lemma readAll_loop_chunks:
  "\<forall>c\<in>set chunks. c \<noteq> [] \<Longrightarrow> hv + int (length (concat chunks)) = sz \<Longrightarrow>
   readAll_loop chunked_read sz buff hv chunks = (Inr (buff @ concat chunks), [])"
proof (induction chunks arbitrary: buff hv)
  case Nil
  then show ?case by (simp add: readAll_loop.simps)
next
  case (Cons c cs)
  from Cons.prems have ne: "c \<noteq> []" and rest: "\<forall>c\<in>set cs. c \<noteq> []" by simp_all
  from ne Cons.prems(2) have lt: "hv < sz" by (cases c) auto
  from Cons.prems(2) have eq: "(hv + int (length c)) + int (length (concat cs)) = sz" by simp
  have "readAll_loop chunked_read sz buff hv (c # cs) =
        readAll_loop chunked_read sz (buff @ c) (hv + int (length c)) cs"
    using lt ne by (subst readAll_loop.simps) (simp add: chunked_read_def)
  also have "\<dots> = (Inr ((buff @ c) @ concat cs), [])"
    by (rule Cons.IH [OF rest eq])
  finally show ?case by simp
qed

lemma readAll_loop_eof:
  "\<forall>c\<in>set pre. c \<noteq> [] \<Longrightarrow> hv + int (length (concat pre)) < sz \<Longrightarrow>
   readAll_loop chunked_read sz buff hv (pre @ [] # rest) = (Inl EOFError, rest)"
proof (induction pre arbitrary: buff hv)
  case Nil
  then show ?case by (subst readAll_loop.simps) (simp add: chunked_read_def)
next
  case (Cons c cs)
  from Cons.prems have ne: "c \<noteq> []" and rest: "\<forall>c\<in>set cs. c \<noteq> []" by simp_all
  from Cons.prems(2) have lt: "hv < sz" by simp
  from Cons.prems(2) have less: "(hv + int (length c)) + int (length (concat cs)) < sz" by simp
  have "readAll_loop chunked_read sz buff hv ((c # cs) @ [] # rest) =
        readAll_loop chunked_read sz (buff @ c) (hv + int (length c)) (cs @ [] # rest)"
    using lt ne by (subst readAll_loop.simps) (simp add: chunked_read_def)
  also have "\<dots> = (Inl EOFError, rest)"
    by (rule Cons.IH [OF rest less])
  finally show ?case .
qed

text \<open>
  C1. For every way of cutting \<open>n\<close> bytes into non-empty pieces, \<^verbatim>\<open>readAll(n)\<close> over a
  transport whose \<^verbatim>\<open>read\<close> yields the pieces in sequence returns the \<open>n\<close> bytes in order
  (and has used up the script); and when a \<^verbatim>\<open>read\<close> returns zero bytes before \<open>n\<close> bytes
  have been collected, \<^verbatim>\<open>readAll(n)\<close> raises \<^verbatim>\<open>EOFError\<close> instead of returning.
\<close>

theorem readAll_chunked:
  "((\<forall>c\<in>set chunks. c \<noteq> []) \<longrightarrow>
      readAll chunked_read (int (length (concat chunks))) chunks = (Inr (concat chunks), []))
   \<and> ((\<forall>c\<in>set pre. c \<noteq> []) \<and> int (length (concat pre)) < n \<longrightarrow>
      readAll chunked_read n (pre @ [] # rest) = (Inl EOFError, rest))"
  unfolding readAll_def
  using readAll_loop_chunks [of chunks 0 "int (length (concat chunks))" "[]"]
    readAll_loop_eof [of pre 0 n "[]" rest]
  by simp

theorem readAll_chunked_witness:
  "readAll chunked_read 5 [[1, 2], [3], [4, 5]] = (Inr [1, 2, 3, 4, 5], [])
   \<and> readAll chunked_read 5 [[1, 2], [3], [], [4, 5]] = (Inl EOFError, [[4, 5]])"
  using readAll_chunked [of "[[1, 2], [3], [4, 5]]" "[[1, 2], [3]]" 5 "[[4, 5]]"]
  by simp

section \<open>Properties of TSocket\<close>

text \<open>
  C9. For a socket transport with a \<^verbatim>\<open>unix_socket\<close> that is not \<^verbatim>\<open>None\<close>, whatever its
  host and port, \<^verbatim>\<open>_resolveAddr\<close> returns exactly one candidate, the Unix-domain stream
  socket at that path, and makes no call to the socket library.
\<close>

theorem resolveAddr_unix:
  "resolveAddr api (s\<lparr>unix_socket := Some p\<rparr>) w
     = (Inr [(AF_UNIX, SOCK_STREAM, None, None, UnixAddr p)], w)
   \<and> resolveAddr api (TSocket_init h pt (Some p)) w
     = (Inr [(AF_UNIX, SOCK_STREAM, None, None, UnixAddr p)], w)"
  by (simp add: resolveAddr_def TSocket_init_def)

theorem resolveAddr_unix_witness:
  "resolveAddr (logged_api (mock_api (Inr []) [] 3 ''linux''))
     (TSocket_init ''example.org'' 9090 (Some ''/tmp/x.sock''))
     ([], \<lparr>next_sock = 0, recv_script = []\<rparr>)
   = (Inr [(AF_UNIX, SOCK_STREAM, None, None, UnixAddr ''/tmp/x.sock'')],
      [], \<lparr>next_sock = 0, recv_script = []\<rparr>)"
  using resolveAddr_unix [where api = "logged_api (mock_api (Inr []) [] 3 ''linux'')"
      and p = "''/tmp/x.sock''" and w = "([], \<lparr>next_sock = 0, recv_script = []\<rparr>)"
      and h = "''example.org''" and pt = 9090]
  by simp

text \<open>
  C10. With no handle, \<^verbatim>\<open>write\<close> raises the \<open>TTransportException\<close> of type
  \<open>NOT_OPEN\<close>, and \<^verbatim>\<open>read\<close> makes no such test: it raises the \<open>AttributeError\<close> of the
  call on \<^verbatim>\<open>None\<close>, never a \<open>TTransportException\<close> of type \<open>NOT_OPEN\<close>.
\<close>

theorem TSocket_no_handle:
  "handle s = None \<Longrightarrow>
     TSocket_write api buff s w = (Inl (TTransportException NOT_OPEN ''Transport not open''), s, w)
   \<and> TSocket_read api sz s w = (Inl (AttributeError ''recv''), s, w)
   \<and> (\<forall>m. fst (TSocket_read api sz s w) \<noteq> Inl (TTransportException NOT_OPEN m))"
  by (simp add: TSocket_write_def TSocket_read_def)

theorem TSocket_no_handle_witness:
  "TSocket_write (mock_api (Inr []) [] 3 ''linux'') [1, 2, 3] (TSocket_init ''localhost'' 9090 None)
      \<lparr>next_sock = 0, recv_script = []\<rparr>
     = (Inl (TTransportException NOT_OPEN ''Transport not open''),
        TSocket_init ''localhost'' 9090 None, \<lparr>next_sock = 0, recv_script = []\<rparr>)
   \<and> TSocket_read (mock_api (Inr []) [] 3 ''linux'') 4 (TSocket_init ''localhost'' 9090 None)
      \<lparr>next_sock = 0, recv_script = []\<rparr>
     = (Inl (AttributeError ''recv''),
        TSocket_init ''localhost'' 9090 None, \<lparr>next_sock = 0, recv_script = []\<rparr>)"
proof -
  have h: "handle (TSocket_init ''localhost'' 9090 None) = None"
    by (simp add: TSocket_init_def)
  show ?thesis
    using TSocket_no_handle [OF h, of "mock_api (Inr []) [] 3 ''linux''" "[1, 2, 3]"
        "\<lparr>next_sock = 0, recv_script = []\<rparr>" 4]
    by simp
qed

text \<open>
  C4. With a handle, when \<^verbatim>\<open>recv\<close> returns the empty string, or raises a
  \<^verbatim>\<open>socket.error\<close> whose first argument is \<open>ECONNRESET\<close> on darwin or a freebsd,
  \<^verbatim>\<open>read\<close> raises the \<open>TTransportException\<close> of type \<open>END_OF_FILE\<close> with the message
  \<^verbatim>\<open>TSocket read 0 bytes\<close> (in the second case after closing the handle); and \<^verbatim>\<open>read\<close>
  never returns an empty string.
\<close>

theorem TSocket_read_eof:
  "handle s = Some h \<Longrightarrow>
     (recv api h sz w = (Inr [], w1) \<longrightarrow>
        TSocket_read api sz s w
          = (Inl (TTransportException END_OF_FILE ''TSocket read 0 bytes''), s, w1))
   \<and> (recv api h sz w = (Inl (IntArg (ECONNRESET api) # args), w1)
        \<and> (sys_platform api = ''darwin'' \<or> prefix ''freebsd'' (sys_platform api)) \<longrightarrow>
        TSocket_read api sz s w
          = (Inl (TTransportException END_OF_FILE ''TSocket read 0 bytes''),
             s\<lparr>handle := None\<rparr>, sock_close api h w1))
   \<and> (\<forall>b s' w'. TSocket_read api sz s w = (Inr b, s', w') \<longrightarrow> b \<noteq> [])"
  by (auto simp: TSocket_read_def TSocketBase_close_def split: prod.splits sum.splits list.splits if_splits)

theorem TSocket_read_eof_witness:
  "TSocket_read (mock_api (Inr []) [] 3 ''linux'') 16
      (setHandle (Some 0) (TSocket_init ''localhost'' 9090 None))
      \<lparr>next_sock = 1, recv_script = [Inr []]\<rparr>
     = (Inl (TTransportException END_OF_FILE ''TSocket read 0 bytes''),
        setHandle (Some 0) (TSocket_init ''localhost'' 9090 None),
        \<lparr>next_sock = 1, recv_script = []\<rparr>)
   \<and> TSocket_read (mock_api (Inr []) [] 3 ''freebsd13'') 16
      (setHandle (Some 0) (TSocket_init ''localhost'' 9090 None))
      \<lparr>next_sock = 1, recv_script = [Inl [IntArg 104, StrArg ''Connection reset by peer'']]\<rparr>
     = (Inl (TTransportException END_OF_FILE ''TSocket read 0 bytes''),
        TSocket_init ''localhost'' 9090 None,
        \<lparr>next_sock = 1, recv_script = []\<rparr>)"
proof -
  have h: "handle (setHandle (Some 0) (TSocket_init ''localhost'' 9090 None)) = Some 0"
    by (simp add: setHandle_def)
  show ?thesis
    using TSocket_read_eof [OF h, where api = "mock_api (Inr []) [] 3 ''linux''" and sz = 16
        and w = "\<lparr>next_sock = 1, recv_script = [Inr []]\<rparr>"
        and ?w1.0 = "\<lparr>next_sock = 1, recv_script = []\<rparr>"]
      TSocket_read_eof [OF h, where api = "mock_api (Inr []) [] 3 ''freebsd13''" and sz = 16
        and w = "\<lparr>next_sock = 1, recv_script = [Inl [IntArg 104, StrArg ''Connection reset by peer'']]\<rparr>"
        and ?w1.0 = "\<lparr>next_sock = 1, recv_script = []\<rparr>"
        and args = "[StrArg ''Connection reset by peer'']"]
    by (simp add: mock_api_def setHandle_def TSocket_init_def)
qed

section \<open>Properties of TBufferedTransport\<close>

lemma logged_simps [simp]:
  "t_isOpen (logged ops) (lg, s) = (case t_isOpen ops s of (r, s1) \<Rightarrow> (r, lg @ [CallIsOpen], s1))"
  "t_open (logged ops) (lg, s) = (case t_open ops s of (r, s1) \<Rightarrow> (r, lg @ [CallOpen], s1))"
  "t_close (logged ops) (lg, s) = (case t_close ops s of (r, s1) \<Rightarrow> (r, lg @ [CallClose], s1))"
  "t_read (logged ops) sz (lg, s) = (case t_read ops sz s of (r, s1) \<Rightarrow> (r, lg @ [CallRead sz r], s1))"
  "t_write (logged ops) b (lg, s) = (case t_write ops b s of (r, s1) \<Rightarrow> (r, lg @ [CallWrite b r], s1))"
  "t_flush (logged ops) (lg, s) = (case t_flush ops s of (r, s1) \<Rightarrow> (r, lg @ [CallFlush r], s1))"
  by (simp_all add: logged_def)

text \<open>
  C7. Over any wrapped transport, with its calls recorded: when the read buffer holds at
  least \<open>k \<ge> 1\<close> unread bytes, \<^verbatim>\<open>read(k)\<close> returns the next \<open>k\<close> of them and leaves the
  wrapped transport and the record of its calls as they were; when the read buffer holds
  no unread byte, \<^verbatim>\<open>read(k)\<close> makes exactly one call on the wrapped transport,
  \<^verbatim>\<open>read(max(k, rbuf_size))\<close>, replaces the buffer by what the call returned and serves
  the first \<open>k\<close> bytes of it (all of it for a negative \<open>k\<close>, as \<^verbatim>\<open>BytesIO.read\<close> does);
  when that call raises, the exception is passed on and the buffer is kept.
\<close>

theorem TBufferedTransport_read_buffered:
  "(1 \<le> k \<and> k \<le> int (length (drop (pos (rbuf t)) (buf (rbuf t)))) \<longrightarrow>
      TBufferedTransport_read (logged ops) k t
        = (Inr (take (nat k) (drop (pos (rbuf t)) (buf (rbuf t)))),
           t\<lparr>rbuf := (rbuf t)\<lparr>pos := pos (rbuf t) + nat k\<rparr>\<rparr>))
   \<and> (drop (pos (rbuf t)) (buf (rbuf t)) = [] \<and> b_trans t = (lg, s)
        \<and> t_read ops (max k (rbuf_size t)) s = (Inr fresh, s1) \<longrightarrow>
      TBufferedTransport_read (logged ops) k t
        = (Inr (if k < 0 then fresh else take (nat k) fresh),
           t\<lparr>b_trans := (lg @ [CallRead (max k (rbuf_size t)) (Inr fresh)], s1),
             rbuf := \<lparr>buf = fresh, pos = length (if k < 0 then fresh else take (nat k) fresh)\<rparr>\<rparr>))
   \<and> (drop (pos (rbuf t)) (buf (rbuf t)) = [] \<and> b_trans t = (lg, s)
        \<and> t_read ops (max k (rbuf_size t)) s = (Inl e, s1) \<longrightarrow>
      TBufferedTransport_read (logged ops) k t
        = (Inl e, t\<lparr>b_trans := (lg @ [CallRead (max k (rbuf_size t)) (Inl e)], s1)\<rparr>))"
proof (intro conjI impI)
  assume a: "1 \<le> k \<and> k \<le> int (length (drop (pos (rbuf t)) (buf (rbuf t))))"
  then have "take (nat k) (drop (pos (rbuf t)) (buf (rbuf t))) \<noteq> []"
    by (cases "drop (pos (rbuf t)) (buf (rbuf t))") auto
  moreover from a have "length (take (nat k) (drop (pos (rbuf t)) (buf (rbuf t)))) = nat k"
    by (simp add: min_def) linarith
  ultimately show "TBufferedTransport_read (logged ops) k t
        = (Inr (take (nat k) (drop (pos (rbuf t)) (buf (rbuf t)))),
           t\<lparr>rbuf := (rbuf t)\<lparr>pos := pos (rbuf t) + nat k\<rparr>\<rparr>)"
    using a by (simp add: TBufferedTransport_read_def BytesIO_read_def Let_def)
next
  assume a: "drop (pos (rbuf t)) (buf (rbuf t)) = [] \<and> b_trans t = (lg, s)
        \<and> t_read ops (max k (rbuf_size t)) s = (Inr fresh, s1)"
  then show "TBufferedTransport_read (logged ops) k t
        = (Inr (if k < 0 then fresh else take (nat k) fresh),
           t\<lparr>b_trans := (lg @ [CallRead (max k (rbuf_size t)) (Inr fresh)], s1),
             rbuf := \<lparr>buf = fresh, pos = length (if k < 0 then fresh else take (nat k) fresh)\<rparr>\<rparr>)"
    by (simp add: TBufferedTransport_read_def BytesIO_read_def BytesIO_init_def Let_def)
next
  assume a: "drop (pos (rbuf t)) (buf (rbuf t)) = [] \<and> b_trans t = (lg, s)
        \<and> t_read ops (max k (rbuf_size t)) s = (Inl e, s1)"
  then show "TBufferedTransport_read (logged ops) k t
        = (Inl e, t\<lparr>b_trans := (lg @ [CallRead (max k (rbuf_size t)) (Inl e)], s1)\<rparr>)"
    by (simp add: TBufferedTransport_read_def BytesIO_read_def BytesIO_init_def Let_def)
qed

theorem TBufferedTransport_read_buffered_witness:
  "TBufferedTransport_read (logged chunked_transport) 2
      (TBufferedTransport_init ([], [[1, 2, 3, 4, 5]]) 4)
     = (Inr [1, 2],
        \<lparr>b_trans = ([CallRead 4 (Inr [1, 2, 3, 4, 5])], []), wbuf = BytesIO_init [],
         rbuf = \<lparr>buf = [1, 2, 3, 4, 5], pos = 2\<rparr>, rbuf_size = 4\<rparr>)
   \<and> TBufferedTransport_read (logged chunked_transport) 2
      \<lparr>b_trans = ([CallRead 4 (Inr [1, 2, 3, 4, 5])], []), wbuf = BytesIO_init [],
       rbuf = \<lparr>buf = [1, 2, 3, 4, 5], pos = 2\<rparr>, rbuf_size = 4\<rparr>
     = (Inr [3, 4],
        \<lparr>b_trans = ([CallRead 4 (Inr [1, 2, 3, 4, 5])], []), wbuf = BytesIO_init [],
         rbuf = \<lparr>buf = [1, 2, 3, 4, 5], pos = 4\<rparr>, rbuf_size = 4\<rparr>)
   \<and> TBufferedTransport_read (logged (TSocket_transport (mock_api (Inr []) [] 3 ''linux''))) 2
      (TBufferedTransport_init
         ([], TSocket_init ''localhost'' 9090 None, \<lparr>next_sock = 0, recv_script = []\<rparr>) 4)
     = (Inl (AttributeError ''recv''),
        TBufferedTransport_init
          ([CallRead 4 (Inl (AttributeError ''recv''))],
           TSocket_init ''localhost'' 9090 None, \<lparr>next_sock = 0, recv_script = []\<rparr>) 4)"
  using
    TBufferedTransport_read_buffered [where ops = chunked_transport and k = 2
      and t = "TBufferedTransport_init ([], [[1, 2, 3, 4, 5]]) 4" and lg = "[]"
      and s = "[[1, 2, 3, 4, 5]]" and fresh = "[1, 2, 3, 4, 5]" and ?s1.0 = "[]"]
    TBufferedTransport_read_buffered [where ops = chunked_transport and k = 2
      and t = "\<lparr>b_trans = ([CallRead 4 (Inr [1, 2, 3, 4, 5])], []), wbuf = BytesIO_init [],
               rbuf = \<lparr>buf = [1, 2, 3, 4, 5], pos = 2\<rparr>, rbuf_size = 4\<rparr>"]
    TBufferedTransport_read_buffered [where ops = "TSocket_transport (mock_api (Inr []) [] 3 ''linux'')"
      and k = 2
      and t = "TBufferedTransport_init
         ([], TSocket_init ''localhost'' 9090 None, \<lparr>next_sock = 0, recv_script = []\<rparr>) 4"
      and lg = "[]"
      and s = "(TSocket_init ''localhost'' 9090 None, \<lparr>next_sock = 0, recv_script = []\<rparr>)"
      and e = "AttributeError ''recv''"
      and ?s1.0 = "(TSocket_init ''localhost'' 9090 None, \<lparr>next_sock = 0, recv_script = []\<rparr>)"]
  by (simp add: TBufferedTransport_init_def BytesIO_init_def chunked_transport_def chunked_read_def
      TSocket_transport_def TSocket_read_def TSocket_init_def)

text \<open>
  The position of the write buffer is its end in every state that the constructor,
  \<^verbatim>\<open>write\<close> and \<^verbatim>\<open>flush\<close> give: nothing else assigns \<^verbatim>\<open>__wbuf\<close>.
\<close>

lemma wbuf_position:
  "pos (wbuf (TBufferedTransport_init tr sz)) = length (buf (wbuf (TBufferedTransport_init tr sz)))"
  "pos (wbuf t) = length (buf (wbuf t)) \<Longrightarrow>
     pos (wbuf (snd (TBufferedTransport_write ops b t)))
       = length (buf (wbuf (snd (TBufferedTransport_write ops b t))))"
  "pos (wbuf (snd (TBufferedTransport_flush ops t)))
     = length (buf (wbuf (snd (TBufferedTransport_flush ops t))))"
  "wbuf (snd (TBufferedTransport_read ops k t)) = wbuf t"
  "wbuf (snd (cstringio_refill ops partialread reqlen t)) = wbuf t"
  by (auto simp: TBufferedTransport_init_def BytesIO_init_def TBufferedTransport_write_def
      BytesIO_write_def TBufferedTransport_flush_def TBufferedTransport_read_def
      cstringio_refill_def Let_def split: prod.splits sum.splits if_splits)

lemma TBufferedTransport_writes_append:
  "pos (wbuf t) = length (buf (wbuf t)) \<Longrightarrow>
   TBufferedTransport_writes ops bss t
     = t\<lparr>wbuf := \<lparr>buf = buf (wbuf t) @ concat bss,
                   pos = length (buf (wbuf t) @ concat bss)\<rparr>\<rparr>"
proof (induction bss arbitrary: t)
  case Nil
  then show ?case by simp
next
  case (Cons b bs)
  let ?t1 = "snd (TBufferedTransport_write ops b t)"
  have w1: "wbuf ?t1 = \<lparr>buf = buf (wbuf t) @ b, pos = length (buf (wbuf t) @ b)\<rparr>"
    using Cons.prems by (simp add: TBufferedTransport_write_def BytesIO_write_def)
  then have inv: "pos (wbuf ?t1) = length (buf (wbuf ?t1))" by simp
  have rest: "?t1\<lparr>wbuf := x\<rparr> = t\<lparr>wbuf := x\<rparr>" for x
    by (simp add: TBufferedTransport_write_def)
  show ?case
    using Cons.IH [OF inv] w1 rest by simp
qed

lemma TBufferedTransport_flush_log:
  "b_trans t = (lg, s) \<Longrightarrow> TBufferedTransport_flush (logged ops) t = (r, t') \<Longrightarrow>
   wbuf t' = BytesIO_init []
   \<and> (\<exists>rw rest. fst (b_trans t') = lg @ CallWrite (buf (wbuf t)) rw # rest
         \<and> (rest = [] \<or> (\<exists>rf. rest = [CallFlush rf])))"
  by (auto simp: TBufferedTransport_flush_def BytesIO_getvalue_def Let_def
      split: prod.splits sum.splits)

text \<open>
  C2. Over any wrapped transport, with its calls recorded, and a write buffer that only
  \<^verbatim>\<open>write\<close> has touched (its position is its end): the \<^verbatim>\<open>write\<close> calls make no call
  on the wrapped transport; the \<^verbatim>\<open>flush\<close> after them makes exactly one wrapped \<^verbatim>\<open>write\<close>
  call, with all buffered bytes in the order written, and then, when that call returned,
  exactly one wrapped \<^verbatim>\<open>flush\<close> call, whose result is the result of \<^verbatim>\<open>flush\<close>; when the
  wrapped \<^verbatim>\<open>write\<close> raises, no wrapped \<^verbatim>\<open>flush\<close> call is made and the exception is
  passed on. In every case the write buffer is empty afterwards, so a second \<^verbatim>\<open>flush\<close>
  right after writes the empty string to the wrapped transport.
\<close>

theorem TBufferedTransport_flush_calls:
  "pos (wbuf t) = length (buf (wbuf t)) \<and> b_trans t = (lg, s)
     \<and> out = buf (wbuf t) @ concat bss
     \<and> t1 = TBufferedTransport_writes (logged ops) bss t \<longrightarrow>
   b_trans t1 = (lg, s)
   \<and> (\<forall>e s1. t_write ops out s = (Inl e, s1) \<longrightarrow>
         TBufferedTransport_flush (logged ops) t1
           = (Inl e, t\<lparr>wbuf := BytesIO_init [],
                       b_trans := (lg @ [CallWrite out (Inl e)], s1)\<rparr>))
   \<and> (\<forall>s1 r s2. t_write ops out s = (Inr (), s1) \<and> t_flush ops s1 = (r, s2) \<longrightarrow>
         TBufferedTransport_flush (logged ops) t1
           = (r, t\<lparr>wbuf := BytesIO_init [],
                   b_trans := (lg @ [CallWrite out (Inr ()), CallFlush r], s2)\<rparr>))
   \<and> (\<forall>r t2 r' t3. TBufferedTransport_flush (logged ops) t1 = (r, t2)
           \<and> TBufferedTransport_flush (logged ops) t2 = (r', t3) \<longrightarrow>
         wbuf t2 = BytesIO_init []
         \<and> (\<exists>rw rest. fst (b_trans t3) = fst (b_trans t2) @ CallWrite [] rw # rest
               \<and> (rest = [] \<or> (\<exists>rf. rest = [CallFlush rf]))))"
proof (intro impI)
  assume a: "pos (wbuf t) = length (buf (wbuf t)) \<and> b_trans t = (lg, s)
     \<and> out = buf (wbuf t) @ concat bss
     \<and> t1 = TBufferedTransport_writes (logged ops) bss t"
  then have t1: "t1 = t\<lparr>wbuf := \<lparr>buf = out, pos = length out\<rparr>\<rparr>"
    using TBufferedTransport_writes_append [of t "logged ops" bss] by simp
  have inner: "b_trans t1 = (lg, s)" using a t1 by simp
  have fail: "TBufferedTransport_flush (logged ops) t1
           = (Inl e, t\<lparr>wbuf := BytesIO_init [],
                       b_trans := (lg @ [CallWrite out (Inl e)], s1)\<rparr>)"
    if "t_write ops out s = (Inl e, s1)" for e s1
    using that a t1
    by (simp add: TBufferedTransport_flush_def BytesIO_getvalue_def Let_def)
  have ok: "TBufferedTransport_flush (logged ops) t1
           = (r, t\<lparr>wbuf := BytesIO_init [],
                   b_trans := (lg @ [CallWrite out (Inr ()), CallFlush r], s2)\<rparr>)"
    if "t_write ops out s = (Inr (), s1) \<and> t_flush ops s1 = (r, s2)" for s1 r s2
    using that a t1
    by (simp add: TBufferedTransport_flush_def BytesIO_getvalue_def Let_def)
  have again: "wbuf t2 = BytesIO_init []
         \<and> (\<exists>rw rest. fst (b_trans t3) = fst (b_trans t2) @ CallWrite [] rw # rest
               \<and> (rest = [] \<or> (\<exists>rf. rest = [CallFlush rf])))"
    if f: "TBufferedTransport_flush (logged ops) t1 = (r, t2)
           \<and> TBufferedTransport_flush (logged ops) t2 = (r', t3)" for r t2 r' t3
  proof -
    from f inner have w2: "wbuf t2 = BytesIO_init []"
      using TBufferedTransport_flush_log [of t1 lg s ops r t2] by simp
    obtain lg2 s2 where b2: "b_trans t2 = (lg2, s2)" by (cases "b_trans t2")
    from f b2 w2 show ?thesis
      using TBufferedTransport_flush_log [of t2 lg2 s2 ops r' t3]
      by (simp add: BytesIO_init_def)
  qed
  from inner fail ok again show "b_trans t1 = (lg, s)
   \<and> (\<forall>e s1. t_write ops out s = (Inl e, s1) \<longrightarrow>
         TBufferedTransport_flush (logged ops) t1
           = (Inl e, t\<lparr>wbuf := BytesIO_init [],
                       b_trans := (lg @ [CallWrite out (Inl e)], s1)\<rparr>))
   \<and> (\<forall>s1 r s2. t_write ops out s = (Inr (), s1) \<and> t_flush ops s1 = (r, s2) \<longrightarrow>
         TBufferedTransport_flush (logged ops) t1
           = (r, t\<lparr>wbuf := BytesIO_init [],
                   b_trans := (lg @ [CallWrite out (Inr ()), CallFlush r], s2)\<rparr>))
   \<and> (\<forall>r t2 r' t3. TBufferedTransport_flush (logged ops) t1 = (r, t2)
           \<and> TBufferedTransport_flush (logged ops) t2 = (r', t3) \<longrightarrow>
         wbuf t2 = BytesIO_init []
         \<and> (\<exists>rw rest. fst (b_trans t3) = fst (b_trans t2) @ CallWrite [] rw # rest
               \<and> (rest = [] \<or> (\<exists>rf. rest = [CallFlush rf]))))"
    by blast
qed

theorem TBufferedTransport_flush_calls_witness:
  "TBufferedTransport_flush (logged chunked_transport)
      (TBufferedTransport_writes (logged chunked_transport) [[1, 2], [3]]
         (TBufferedTransport_init ([], []) 4096))
     = (Inr (), TBufferedTransport_init
                  ([CallWrite [1, 2, 3] (Inr ()), CallFlush (Inr ())], []) 4096)
   \<and> TBufferedTransport_flush (logged (TSocket_transport (mock_api (Inr []) [] 3 ''linux'')))
      (TBufferedTransport_writes (logged (TSocket_transport (mock_api (Inr []) [] 3 ''linux'')))
         [[1, 2], [3]]
         (TBufferedTransport_init
            ([], TSocket_init ''localhost'' 9090 None, \<lparr>next_sock = 0, recv_script = []\<rparr>)
            4096))
     = (Inl (TTransportException NOT_OPEN ''Transport not open''),
        TBufferedTransport_init
          ([CallWrite [1, 2, 3] (Inl (TTransportException NOT_OPEN ''Transport not open''))],
           TSocket_init ''localhost'' 9090 None, \<lparr>next_sock = 0, recv_script = []\<rparr>) 4096)"
  using
    TBufferedTransport_flush_calls [where ops = chunked_transport
      and t = "TBufferedTransport_init ([], []) 4096" and lg = "[]" and s = "[]"
      and bss = "[[1, 2], [3]]" and out = "[1, 2, 3]"
      and ?t1.0 = "TBufferedTransport_writes (logged chunked_transport) [[1, 2], [3]]
         (TBufferedTransport_init ([], []) 4096)"]
    TBufferedTransport_flush_calls [where ops = "TSocket_transport (mock_api (Inr []) [] 3 ''linux'')"
      and t = "TBufferedTransport_init
            ([], TSocket_init ''localhost'' 9090 None, \<lparr>next_sock = 0, recv_script = []\<rparr>)
            4096" and lg = "[]"
      and s = "(TSocket_init ''localhost'' 9090 None, \<lparr>next_sock = 0, recv_script = []\<rparr>)"
      and bss = "[[1, 2], [3]]" and out = "[1, 2, 3]"
      and ?t1.0 = "TBufferedTransport_writes
         (logged (TSocket_transport (mock_api (Inr []) [] 3 ''linux''))) [[1, 2], [3]]
         (TBufferedTransport_init
            ([], TSocket_init ''localhost'' 9090 None, \<lparr>next_sock = 0, recv_script = []\<rparr>)
            4096)"]
  by (simp add: TBufferedTransport_init_def BytesIO_init_def chunked_transport_def
      TSocket_transport_def TSocket_write_def TSocket_init_def)

text \<open>
  The wrapped transport here is a \<open>TSocket\<close> that was never opened: its \<^verbatim>\<open>write\<close> raises,
  and the record of the calls holds that one \<^verbatim>\<open>write\<close> and no \<^verbatim>\<open>flush\<close>.
\<close>

theorem TBufferedTransport_flush_counterexample:
  "TBufferedTransport_flush (logged (TSocket_transport (mock_api (Inr []) [] 3 ''linux'')))
      (TBufferedTransport_writes (logged (TSocket_transport (mock_api (Inr []) [] 3 ''linux'')))
         [[1, 2], [3]]
         (TBufferedTransport_init
            ([], TSocket_init ''localhost'' 9090 None, \<lparr>next_sock = 0, recv_script = []\<rparr>)
            4096))
     = (Inl (TTransportException NOT_OPEN ''Transport not open''),
        TBufferedTransport_init
          ([CallWrite [1, 2, 3] (Inl (TTransportException NOT_OPEN ''Transport not open''))],
           TSocket_init ''localhost'' 9090 None, \<lparr>next_sock = 0, recv_script = []\<rparr>) 4096)"
  by (simp add: TBufferedTransport_flush_def TBufferedTransport_write_def BytesIO_write_def
      BytesIO_getvalue_def TBufferedTransport_init_def BytesIO_init_def
      TSocket_transport_def TSocket_write_def TSocket_init_def)

lemma bytes_read_append: "bytes_read (xs @ ys) = bytes_read xs @ bytes_read ys"
  by (induction xs rule: bytes_read.induct) simp_all

lemma readAll_loop_length:
  "readAll_loop rd sz buff hv s = (Inr b, s') \<Longrightarrow> hv = int (length buff) \<Longrightarrow>
   sz \<le> int (length b)"
proof (induction rd sz buff hv s rule: readAll_loop.induct)
  case (1 rd sz buff hv s)
  show ?case
  proof (cases "hv < sz")
    case False
    with "1.prems" show ?thesis by (simp add: readAll_loop.simps)
  next
    case True
    obtain r s1 where rd: "rd (sz - hv) s = (r, s1)" by (cases "rd (sz - hv) s")
    show ?thesis
    proof (cases r)
      case (Inl e)
      with True rd "1.prems" show ?thesis by (simp add: readAll_loop.simps)
    next
      case (Inr chunk)
      show ?thesis
      proof (cases "length chunk = 0")
        case True
        with \<open>hv < sz\<close> rd Inr "1.prems" show ?thesis by (simp add: readAll_loop.simps)
      next
        case False
        with \<open>hv < sz\<close> rd Inr "1.prems"(1)
        have step: "readAll_loop rd sz (buff @ chunk) (hv + int (length chunk)) s1 = (Inr b, s')"
          by (simp add: readAll_loop.simps)
        show ?thesis
          by (rule "1.IH" [OF \<open>hv < sz\<close> rd [symmetric] Inr refl refl False step])
            (simp add: "1.prems"(2))
      qed
    qed
  qed
qed

lemma readAll_length: "readAll rd sz s = (Inr b, s') \<Longrightarrow> sz \<le> int (length b)"
  using readAll_loop_length [of rd sz "[]" 0 s b s'] by (simp add: readAll_def)

lemma readAll_loop_logged:
  "readAll_loop (t_read (logged ops)) sz buff hv (lg, s) = (r, lg', s') \<Longrightarrow>
   \<exists>new. lg' = lg @ new \<and> (\<forall>b. r = Inr b \<longrightarrow> b = buff @ bytes_read new)"
proof (induction "t_read (logged ops)" sz buff hv "(lg, s)" arbitrary: lg s
    rule: readAll_loop.induct)
  case (1 sz buff hv)
  show ?case
  proof (cases "hv < sz")
    case False
    with "1.prems" show ?thesis by (auto simp: readAll_loop.simps)
  next
    case True
    obtain r1 s1 where rd: "t_read ops (sz - hv) s = (r1, s1)" by (cases "t_read ops (sz - hv) s")
    then have lrd: "t_read (logged ops) (sz - hv) (lg, s) = (r1, lg @ [CallRead (sz - hv) r1], s1)"
      by simp
    show ?thesis
    proof (cases r1)
      case (Inl e)
      with True lrd "1.prems" have "lg' = lg @ [CallRead (sz - hv) r1] \<and> r = Inl e"
        by (auto simp: readAll_loop.simps)
      then show ?thesis by auto
    next
      case (Inr chunk)
      show ?thesis
      proof (cases "length chunk = 0")
        case True
        with \<open>hv < sz\<close> lrd Inr "1.prems"
        have "lg' = lg @ [CallRead (sz - hv) r1] \<and> r = Inl EOFError"
          by (auto simp: readAll_loop.simps)
        then show ?thesis by auto
      next
        case False
        with \<open>hv < sz\<close> lrd Inr "1.prems"
        have step: "readAll_loop (t_read (logged ops)) sz (buff @ chunk)
            (hv + int (length chunk)) (lg @ [CallRead (sz - hv) (Inr chunk)], s1) = (r, lg', s')"
          by (simp add: readAll_loop.simps)
        from lrd Inr have lrd': "(Inr chunk, lg @ [CallRead (sz - hv) (Inr chunk)], s1)
            = t_read (logged ops) (sz - hv) (lg, s)" by simp
        from "1.hyps" [OF \<open>hv < sz\<close> lrd' refl refl refl False step]
        obtain new where n: "lg' = (lg @ [CallRead (sz - hv) (Inr chunk)]) @ new"
          and b: "\<forall>b. r = Inr b \<longrightarrow> b = (buff @ chunk) @ bytes_read new"
          by blast
        have "lg' = lg @ (CallRead (sz - hv) (Inr chunk) # new)" using n by simp
        moreover have "\<forall>b. r = Inr b \<longrightarrow>
            b = buff @ bytes_read (CallRead (sz - hv) (Inr chunk) # new)"
          using b by simp
        ultimately show ?thesis by blast
      qed
    qed
  qed
qed

lemma shortfall_logged:
  "(if int (length retstring) < reqlen then
      (case readAll (t_read (logged ops)) (reqlen - int (length retstring)) (lg1, s1) of
         (Inl e, s2) \<Rightarrow> (Inl e, s2)
       | (Inr d, s2) \<Rightarrow> (Inr (retstring @ d), s2))
    else (Inr retstring, lg1, s1)) = (r2, lg2, s2) \<Longrightarrow>
   \<exists>new2. lg2 = lg1 @ new2
      \<and> (\<forall>b. r2 = Inr b \<longrightarrow> b = retstring @ bytes_read new2 \<and> reqlen \<le> int (length b))"
proof (cases "int (length retstring) < reqlen")
  case False
  assume "(if int (length retstring) < reqlen then
      (case readAll (t_read (logged ops)) (reqlen - int (length retstring)) (lg1, s1) of
         (Inl e, s2) \<Rightarrow> (Inl e, s2)
       | (Inr d, s2) \<Rightarrow> (Inr (retstring @ d), s2))
    else (Inr retstring, lg1, s1)) = (r2, lg2, s2)"
  with False have "r2 = Inr retstring \<and> lg2 = lg1" by auto
  with False show ?thesis by auto
next
  case True
  assume a: "(if int (length retstring) < reqlen then
      (case readAll (t_read (logged ops)) (reqlen - int (length retstring)) (lg1, s1) of
         (Inl e, s2) \<Rightarrow> (Inl e, s2)
       | (Inr d, s2) \<Rightarrow> (Inr (retstring @ d), s2))
    else (Inr retstring, lg1, s1)) = (r2, lg2, s2)"
  obtain ra lga sa where ra:
    "readAll (t_read (logged ops)) (reqlen - int (length retstring)) (lg1, s1) = (ra, lga, sa)"
    by (cases "readAll (t_read (logged ops)) (reqlen - int (length retstring)) (lg1, s1)")
  from ra obtain new2 where n: "lga = lg1 @ new2"
    and b: "\<forall>b. ra = Inr b \<longrightarrow> b = [] @ bytes_read new2"
    using readAll_loop_logged [of ops "reqlen - int (length retstring)" "[]" 0 lg1 s1 ra lga sa]
    by (auto simp: readAll_def)
  show ?thesis
  proof (cases ra)
    case (Inl e)
    with a True ra have "lg2 = lga \<and> r2 = Inl e" by auto
    with n show ?thesis by auto
  next
    case (Inr d)
    with a True ra have r2: "lg2 = lga \<and> r2 = Inr (retstring @ d)" by auto
    from Inr b have d: "d = bytes_read new2" by simp
    from Inr ra have "reqlen - int (length retstring) \<le> int (length d)"
      using readAll_length [of "t_read (logged ops)" "reqlen - int (length retstring)"
          "(lg1, s1)" d "(lga, sa)"] by simp
    with r2 n d show ?thesis by auto
  qed
qed

lemma cstringio_refill_logged:
  assumes bt: "b_trans t = (lg, s)"
    and rf: "cstringio_refill (logged ops) partialread reqlen t = (r, t')"
  shows "\<exists>new. fst (b_trans t') = lg @ new
      \<and> (reqlen < rbuf_size t \<longrightarrow> (\<exists>r1 rest. new = CallRead (rbuf_size t) r1 # rest))
      \<and> (\<forall>io. r = Inr io \<longrightarrow>
            io = \<lparr>buf = partialread @ bytes_read new, pos = 0\<rparr> \<and> cstringio_buf t' = io
            \<and> reqlen \<le> int (length (buf io)))"
proof -
  define stage1 where "stage1 =
    (if reqlen < rbuf_size t then
       (case t_read (logged ops) (rbuf_size t) (b_trans t) of
          (Inl e, s1) \<Rightarrow> (Inl e, s1)
        | (Inr d, s1) \<Rightarrow> (Inr (partialread @ d), s1))
     else (Inr partialread, b_trans t))"
  obtain r1 lg1 s1 where st1: "stage1 = (r1, lg1, s1)" by (cases stage1)
  have first: "\<exists>new1. lg1 = lg @ new1
      \<and> (reqlen < rbuf_size t \<longrightarrow> (\<exists>x rest. new1 = CallRead (rbuf_size t) x # rest))
      \<and> (\<forall>b. r1 = Inr b \<longrightarrow> b = partialread @ bytes_read new1)"
  proof (cases "reqlen < rbuf_size t")
    case False
    with st1 bt have "lg1 = lg \<and> r1 = Inr partialread" by (auto simp: stage1_def)
    with False show ?thesis by auto
  next
    case True
    obtain x sx where x: "t_read ops (rbuf_size t) s = (x, sx)"
      by (cases "t_read ops (rbuf_size t) s")
    with True st1 bt have l: "lg1 = lg @ [CallRead (rbuf_size t) x]"
      by (auto simp: stage1_def split: sum.splits)
    from x True st1 bt have "\<forall>b. r1 = Inr b \<longrightarrow> (\<exists>d. x = Inr d \<and> b = partialread @ d)"
      by (auto simp: stage1_def split: sum.splits)
    then have "\<forall>b. r1 = Inr b \<longrightarrow> b = partialread @ bytes_read [CallRead (rbuf_size t) x]"
      by auto
    with l show ?thesis by blast
  qed
  then obtain new1 where n1: "lg1 = lg @ new1"
    and o1: "reqlen < rbuf_size t \<longrightarrow> (\<exists>x rest. new1 = CallRead (rbuf_size t) x # rest)"
    and b1: "\<forall>b. r1 = Inr b \<longrightarrow> b = partialread @ bytes_read new1"
    by blast
  show ?thesis
  proof (cases r1)
    case (Inl e)
    with rf st1 have "r = Inl e \<and> t' = t\<lparr>b_trans := (lg1, s1)\<rparr>"
      by (simp add: cstringio_refill_def stage1_def [symmetric])
    with n1 o1 show ?thesis by auto
  next
    case (Inr retstring)
    define stage2 where "stage2 =
      (if int (length retstring) < reqlen then
         (case readAll (t_read (logged ops)) (reqlen - int (length retstring)) (lg1, s1) of
            (Inl e, s2) \<Rightarrow> (Inl e, s2)
          | (Inr d, s2) \<Rightarrow> (Inr (retstring @ d), s2))
       else (Inr retstring, lg1, s1))"
    obtain r2 lg2 s2 where st2: "stage2 = (r2, lg2, s2)" by (cases stage2)
    from st2 obtain new2 where n2: "lg2 = lg1 @ new2"
      and b2: "\<forall>b. r2 = Inr b \<longrightarrow> b = retstring @ bytes_read new2 \<and> reqlen \<le> int (length b)"
      using shortfall_logged [of retstring reqlen ops lg1 s1 r2 lg2 s2]
      unfolding stage2_def by blast
    from Inr b1 have rs: "retstring = partialread @ bytes_read new1" by simp
    have res: "(r, t') = (case r2 of
          Inl e \<Rightarrow> (Inl e, t\<lparr>b_trans := (lg2, s2)\<rparr>)
        | Inr retstring2 \<Rightarrow>
            (Inr (BytesIO_init retstring2),
             t\<lparr>b_trans := (lg2, s2), rbuf := BytesIO_init retstring2\<rparr>))"
      using rf st1 Inr st2
      by (simp add: cstringio_refill_def stage1_def [symmetric] stage2_def [symmetric]
          split: sum.splits)
    have log: "fst (b_trans t') = lg @ (new1 @ new2)"
      using res n1 n2 by (cases r2) auto
    have opp: "reqlen < rbuf_size t \<longrightarrow>
        (\<exists>x rest. new1 @ new2 = CallRead (rbuf_size t) x # rest)"
      using o1 by auto
    have io: "\<forall>io. r = Inr io \<longrightarrow>
            io = \<lparr>buf = partialread @ bytes_read (new1 @ new2), pos = 0\<rparr>
            \<and> cstringio_buf t' = io \<and> reqlen \<le> int (length (buf io))"
      using res b2 rs
      by (cases r2) (auto simp: BytesIO_init_def cstringio_buf_def bytes_read_append)
    from log opp io show ?thesis by blast
  qed
qed

text \<open>
  C8. \<^verbatim>\<open>cstringio_refill(partialread, reqlen)\<close> over any wrapped transport, with its calls
  recorded. When \<open>reqlen < rbuf_size\<close>, its first call on the wrapped transport is one
  \<^verbatim>\<open>read(rbuf_size)\<close>, and a result of that call shorter than what is missing (even an
  empty one) raises nothing; when \<open>reqlen \<ge> rbuf_size\<close> that call is not made. What is
  then still missing of \<open>reqlen\<close> is read with \<^verbatim>\<open>readAll\<close>, and these are all the calls.
  When it returns, the result is the new read buffer, at position 0, holding
  \<open>partialread\<close> followed by all the bytes the recorded calls returned, at least
  \<open>reqlen\<close> bytes.
\<close>

theorem cstringio_refill_correct:
  "(b_trans t = (lg, s) \<and> cstringio_refill (logged ops) partialread reqlen t = (r, t') \<longrightarrow>
      (\<exists>new. fst (b_trans t') = lg @ new
         \<and> (reqlen < rbuf_size t \<longrightarrow> (\<exists>r1 rest. new = CallRead (rbuf_size t) r1 # rest))
         \<and> (\<forall>io. r = Inr io \<longrightarrow>
               io = \<lparr>buf = partialread @ bytes_read new, pos = 0\<rparr> \<and> cstringio_buf t' = io
               \<and> reqlen \<le> int (length (buf io)))))
   \<and> (\<not> reqlen < rbuf_size u \<longrightarrow>
      cstringio_refill ops' partialread reqlen u =
        (if int (length partialread) < reqlen then
           (case readAll (t_read ops') (reqlen - int (length partialread)) (b_trans u) of
              (Inl e, s2) \<Rightarrow> (Inl e, u\<lparr>b_trans := s2\<rparr>)
            | (Inr d, s2) \<Rightarrow>
                (Inr (BytesIO_init (partialread @ d)),
                 u\<lparr>b_trans := s2, rbuf := BytesIO_init (partialread @ d)\<rparr>))
         else (Inr (BytesIO_init partialread), u\<lparr>rbuf := BytesIO_init partialread\<rparr>)))
   \<and> (reqlen < rbuf_size u \<and> t_read ops' (rbuf_size u) (b_trans u) = (Inr d1, s1) \<longrightarrow>
      cstringio_refill ops' partialread reqlen u =
        (if int (length (partialread @ d1)) < reqlen then
           (case readAll (t_read ops') (reqlen - int (length (partialread @ d1))) s1 of
              (Inl e, s2) \<Rightarrow> (Inl e, u\<lparr>b_trans := s2\<rparr>)
            | (Inr d2, s2) \<Rightarrow>
                (Inr (BytesIO_init (partialread @ d1 @ d2)),
                 u\<lparr>b_trans := s2, rbuf := BytesIO_init (partialread @ d1 @ d2)\<rparr>))
         else (Inr (BytesIO_init (partialread @ d1)),
               u\<lparr>b_trans := s1, rbuf := BytesIO_init (partialread @ d1)\<rparr>)))"
proof (intro conjI impI)
  assume "b_trans t = (lg, s) \<and> cstringio_refill (logged ops) partialread reqlen t = (r, t')"
  then show "\<exists>new. fst (b_trans t') = lg @ new
         \<and> (reqlen < rbuf_size t \<longrightarrow> (\<exists>r1 rest. new = CallRead (rbuf_size t) r1 # rest))
         \<and> (\<forall>io. r = Inr io \<longrightarrow>
               io = \<lparr>buf = partialread @ bytes_read new, pos = 0\<rparr> \<and> cstringio_buf t' = io
               \<and> reqlen \<le> int (length (buf io)))"
    using cstringio_refill_logged [of t lg s ops partialread reqlen r t'] by blast
next
  assume "\<not> reqlen < rbuf_size u"
  then show "cstringio_refill ops' partialread reqlen u =
        (if int (length partialread) < reqlen then
           (case readAll (t_read ops') (reqlen - int (length partialread)) (b_trans u) of
              (Inl e, s2) \<Rightarrow> (Inl e, u\<lparr>b_trans := s2\<rparr>)
            | (Inr d, s2) \<Rightarrow>
                (Inr (BytesIO_init (partialread @ d)),
                 u\<lparr>b_trans := s2, rbuf := BytesIO_init (partialread @ d)\<rparr>))
         else (Inr (BytesIO_init partialread), u\<lparr>rbuf := BytesIO_init partialread\<rparr>))"
    by (simp add: cstringio_refill_def split: prod.splits sum.splits)
next
  assume "reqlen < rbuf_size u \<and> t_read ops' (rbuf_size u) (b_trans u) = (Inr d1, s1)"
  then show "cstringio_refill ops' partialread reqlen u =
        (if int (length (partialread @ d1)) < reqlen then
           (case readAll (t_read ops') (reqlen - int (length (partialread @ d1))) s1 of
              (Inl e, s2) \<Rightarrow> (Inl e, u\<lparr>b_trans := s2\<rparr>)
            | (Inr d2, s2) \<Rightarrow>
                (Inr (BytesIO_init (partialread @ d1 @ d2)),
                 u\<lparr>b_trans := s2, rbuf := BytesIO_init (partialread @ d1 @ d2)\<rparr>))
         else (Inr (BytesIO_init (partialread @ d1)),
               u\<lparr>b_trans := s1, rbuf := BytesIO_init (partialread @ d1)\<rparr>))"
    by (simp add: cstringio_refill_def split: prod.splits sum.splits)
qed

lemma readAll_logged_example:
  "readAll (t_read (logged chunked_transport)) 5 ([], [[1, 2], [3, 4, 5]])
     = (Inr [1, 2, 3, 4, 5], [CallRead 5 (Inr [1, 2]), CallRead 3 (Inr [3, 4, 5])], [])"
  by (simp add: readAll_def readAll_loop.simps chunked_transport_def chunked_read_def)

text \<open>
  With \<open>rbuf_size = 2\<close> and \<open>reqlen = 6\<close> the calls on the wrapped transport are those of
  \<^verbatim>\<open>readAll(5)\<close>, namely \<^verbatim>\<open>read(5)\<close> and \<^verbatim>\<open>read(3)\<close>: no \<^verbatim>\<open>read(2)\<close> is made.
\<close>

theorem cstringio_refill_counterexample:
  "cstringio_refill (logged chunked_transport) [9] 6
      (TBufferedTransport_init ([], [[1, 2], [3, 4, 5]]) 2)
     = (Inr \<lparr>buf = [9, 1, 2, 3, 4, 5], pos = 0\<rparr>,
        \<lparr>b_trans = ([CallRead 5 (Inr [1, 2]), CallRead 3 (Inr [3, 4, 5])], []),
         wbuf = BytesIO_init [], rbuf = \<lparr>buf = [9, 1, 2, 3, 4, 5], pos = 0\<rparr>, rbuf_size = 2\<rparr>)"
  by (simp add: cstringio_refill_def TBufferedTransport_init_def readAll_logged_example BytesIO_init_def)

theorem cstringio_refill_correct_witness:
  "cstringio_refill (logged chunked_transport) [9] 3
      (TBufferedTransport_init ([], [[1, 2, 3], [4]]) 4)
     = (Inr \<lparr>buf = [9, 1, 2, 3], pos = 0\<rparr>,
        \<lparr>b_trans = ([CallRead 4 (Inr [1, 2, 3])], [[4]]),
         wbuf = BytesIO_init [], rbuf = \<lparr>buf = [9, 1, 2, 3], pos = 0\<rparr>, rbuf_size = 4\<rparr>)
   \<and> cstringio_refill (logged chunked_transport) [9] 6
      (TBufferedTransport_init ([], [[1, 2], [3, 4, 5]]) 2)
     = (Inr \<lparr>buf = [9, 1, 2, 3, 4, 5], pos = 0\<rparr>,
        \<lparr>b_trans = ([CallRead 5 (Inr [1, 2]), CallRead 3 (Inr [3, 4, 5])], []),
         wbuf = BytesIO_init [], rbuf = \<lparr>buf = [9, 1, 2, 3, 4, 5], pos = 0\<rparr>, rbuf_size = 2\<rparr>)
   \<and> (\<exists>new. [CallRead 4 (Inr [1, 2, 3])] = [] @ new
         \<and> (\<exists>r1 rest. new = CallRead 4 r1 # rest)
         \<and> [9, 1, 2, 3] = [9] @ bytes_read new)"
proof -
  have a: "cstringio_refill (logged chunked_transport) [9] 3
      (TBufferedTransport_init ([], [[1, 2, 3], [4]]) 4)
     = (Inr \<lparr>buf = [9, 1, 2, 3], pos = 0\<rparr>,
        \<lparr>b_trans = ([CallRead 4 (Inr [1, 2, 3])], [[4]]),
         wbuf = BytesIO_init [], rbuf = \<lparr>buf = [9, 1, 2, 3], pos = 0\<rparr>, rbuf_size = 4\<rparr>)"
    using cstringio_refill_correct [where ops' = "logged chunked_transport"
        and u = "TBufferedTransport_init ([], [[1, 2, 3], [4]]) 4" and partialread = "[9]"
        and reqlen = 3 and ?d1.0 = "[1, 2, 3]" and ?s1.0 = "([CallRead 4 (Inr [1, 2, 3])], [[4]])",
        THEN conjunct2, THEN conjunct2]
    by (simp add: TBufferedTransport_init_def BytesIO_init_def chunked_transport_def
        chunked_read_def)
  have b: "cstringio_refill (logged chunked_transport) [9] 6
      (TBufferedTransport_init ([], [[1, 2], [3, 4, 5]]) 2)
     = (Inr \<lparr>buf = [9, 1, 2, 3, 4, 5], pos = 0\<rparr>,
        \<lparr>b_trans = ([CallRead 5 (Inr [1, 2]), CallRead 3 (Inr [3, 4, 5])], []),
         wbuf = BytesIO_init [], rbuf = \<lparr>buf = [9, 1, 2, 3, 4, 5], pos = 0\<rparr>, rbuf_size = 2\<rparr>)"
    using cstringio_refill_correct [where ops' = "logged chunked_transport"
        and u = "TBufferedTransport_init ([], [[1, 2], [3, 4, 5]]) 2" and partialread = "[9]"
        and reqlen = 6, THEN conjunct2, THEN conjunct1]
    by (simp add: TBufferedTransport_init_def BytesIO_init_def readAll_logged_example)
  have c: "\<exists>new. [CallRead 4 (Inr [1, 2, 3])] = [] @ new
         \<and> (\<exists>r1 rest. new = CallRead 4 r1 # rest)
         \<and> [9, 1, 2, 3] = [9] @ bytes_read new"
    using a cstringio_refill_correct [where ops = chunked_transport
        and t = "TBufferedTransport_init ([], [[1, 2, 3], [4]]) 4" and lg = "[]"
        and s = "[[1, 2, 3], [4]]" and partialread = "[9]" and reqlen = 3
        and r = "Inr \<lparr>buf = [9, 1, 2, 3], pos = 0\<rparr>"
        and t' = "\<lparr>b_trans = ([CallRead 4 (Inr [1, 2, 3])], [[4]]),
         wbuf = BytesIO_init [], rbuf = \<lparr>buf = [9, 1, 2, 3], pos = 0\<rparr>, rbuf_size = 4\<rparr>",
        THEN conjunct1]
    by (simp add: TBufferedTransport_init_def)
  from a b c show ?thesis by blast
qed

section \<open>Properties of TSocket with a recorded socket library\<close>

lemma logged_api_simps [simp]:
  "getaddrinfo (logged_api api) hn p f ty pr fl (lg, w)
     = (case getaddrinfo api hn p f ty pr fl w of (r, w1) \<Rightarrow> (r, lg @ [SysGetaddrinfo hn p], w1))"
  "socket_socket (logged_api api) f ty (lg, w)
     = (case socket_socket api f ty w of (r, w1) \<Rightarrow> (r, lg @ [SysSocket f ty r], w1))"
  "settimeout (logged_api api) h tm (lg, w)
     = (case settimeout api h tm w of (r, w1) \<Rightarrow> (r, lg @ [SysSettimeout h tm r], w1))"
  "connect (logged_api api) h a (lg, w)
     = (case connect api h a w of (r, w1) \<Rightarrow> (r, lg @ [SysConnect h a r], w1))"
  "recv (logged_api api) h sz (lg, w)
     = (case recv api h sz w of (r, w1) \<Rightarrow> (r, lg @ [SysRecv h sz r], w1))"
  "send (logged_api api) h b (lg, w)
     = (case send api h b w of (r, w1) \<Rightarrow> (r, lg @ [SysSend h b r], w1))"
  "sock_close (logged_api api) h (lg, w) = (lg @ [SysClose h], sock_close api h w)"
  "sys_platform (logged_api api) = sys_platform api"
  "ECONNRESET (logged_api api) = ECONNRESET api"
  by (simp_all add: logged_api_def)

lemma write_loop_zero:
  "write_loop (logged_api api) h sent hv buff (lg, w) = (r, lg', w') \<Longrightarrow>
   \<exists>new. lg' = lg @ new
     \<and> (\<forall>p. SysSend h p (Inr 0) \<in> set new \<longrightarrow>
           r = Inl (TTransportException END_OF_FILE ''TSocket sent 0 bytes''))"
proof (induction "logged_api api" h sent hv buff "(lg, w)" arbitrary: lg w
    rule: write_loop.induct)
  case (1 h sent hv buff)
  show ?case
  proof (cases "sent < hv")
    case False
    with "1.prems" show ?thesis by (auto simp: write_loop.simps)
  next
    case True
    obtain x w1 where x: "send api h buff w = (x, w1)" by (cases "send api h buff w")
    then have lx: "send (logged_api api) h buff (lg, w) = (x, lg @ [SysSend h buff x], w1)"
      by simp
    show ?thesis
    proof (cases x)
      case (Inl args)
      with True lx "1.prems" have "lg' = lg @ [SysSend h buff (Inl args)]"
        by (auto simp: write_loop.simps)
      then show ?thesis by auto
    next
      case (Inr k)
      show ?thesis
      proof (cases "k = 0")
        case True
        with \<open>sent < hv\<close> lx Inr "1.prems"
        have "lg' = lg @ [SysSend h buff (Inr 0)]
            \<and> r = Inl (TTransportException END_OF_FILE ''TSocket sent 0 bytes'')"
          by (auto simp: write_loop.simps)
        then show ?thesis by auto
      next
        case False
        with \<open>sent < hv\<close> lx Inr "1.prems"
        have step: "write_loop (logged_api api) h (sent + k) hv (drop k buff)
            (lg @ [SysSend h buff (Inr k)], w1) = (r, lg', w')"
          by (simp add: write_loop.simps)
        from lx Inr have lx': "(Inr k, lg @ [SysSend h buff (Inr k)], w1)
            = send (logged_api api) h buff (lg, w)" by simp
        from "1.hyps" [OF \<open>sent < hv\<close> lx' refl False step]
        obtain new where n: "lg' = (lg @ [SysSend h buff (Inr k)]) @ new"
          and z: "\<forall>p. SysSend h p (Inr 0) \<in> set new \<longrightarrow>
              r = Inl (TTransportException END_OF_FILE ''TSocket sent 0 bytes'')"
          by blast
        have "lg' = lg @ (SysSend h buff (Inr k) # new)" using n by simp
        moreover have "\<forall>p. SysSend h p (Inr 0) \<in> set (SysSend h buff (Inr k) # new) \<longrightarrow>
              r = Inl (TTransportException END_OF_FILE ''TSocket sent 0 bytes'')"
          using z False by auto
        ultimately show ?thesis by blast
      qed
    qed
  qed
qed

lemma write_loop_trace:
  assumes c: "\<forall>h p w k w'. send api h p w = (Inr k, w') \<longrightarrow> k \<le> length p"
  shows "write_loop (logged_api api) h sent hv buff (lg, w) = (Inr (), lg', w') \<Longrightarrow>
   sent + length buff = hv \<Longrightarrow>
   \<exists>ss. lg' = lg @ map (\<lambda>(p, k). SysSend h p (Inr k)) ss
     \<and> sum_list (map snd ss) = length buff
     \<and> concat (map (\<lambda>(p, k). take k p) ss) = buff"
proof (induction "logged_api api" h sent hv buff "(lg, w)" arbitrary: lg w
    rule: write_loop.induct)
  case (1 h sent hv buff)
  note c1 = c
  show ?case
  proof (cases "sent < hv")
    case False
    with "1.prems" have "lg' = lg \<and> buff = []" by (auto simp: write_loop.simps)
    then have "lg' = lg @ map (\<lambda>(p, k). SysSend h p (Inr k)) []
      \<and> sum_list (map snd ([] :: (bytes \<times> nat) list)) = length buff
      \<and> concat (map (\<lambda>(p, k). take k p) ([] :: (bytes \<times> nat) list)) = buff" by simp
    then show ?thesis by blast
  next
    case True
    obtain x w1 where x: "send api h buff w = (x, w1)" by (cases "send api h buff w")
    then have lx: "send (logged_api api) h buff (lg, w) = (x, lg @ [SysSend h buff x], w1)"
      by simp
    show ?thesis
    proof (cases x)
      case (Inl args)
      with True lx "1.prems" show ?thesis by (auto simp: write_loop.simps)
    next
      case (Inr k)
      show ?thesis
      proof (cases "k = 0")
        case True
        with \<open>sent < hv\<close> lx Inr "1.prems" show ?thesis by (auto simp: write_loop.simps)
      next
        case False
        from x Inr c1 have kl: "k \<le> length buff" by blast
        with \<open>sent < hv\<close> lx Inr "1.prems" False
        have step: "write_loop (logged_api api) h (sent + k) hv (drop k buff)
            (lg @ [SysSend h buff (Inr k)], w1) = (Inr (), lg', w')"
          by (simp add: write_loop.simps)
        from lx Inr have lx': "(Inr k, lg @ [SysSend h buff (Inr k)], w1)
            = send (logged_api api) h buff (lg, w)" by simp
        from kl "1.prems"(2) have inv: "sent + k + length (drop k buff) = hv" by simp
        from "1.hyps" [OF \<open>sent < hv\<close> lx' refl False step inv]
        obtain ss where n: "lg' = (lg @ [SysSend h buff (Inr k)]) @ map (\<lambda>(p, k). SysSend h p (Inr k)) ss"
          and su: "sum_list (map snd ss) = length (drop k buff)"
          and co: "concat (map (\<lambda>(p, k). take k p) ss) = drop k buff"
          by blast
        have "lg' = lg @ map (\<lambda>(p, k). SysSend h p (Inr k)) ((buff, k) # ss)"
          using n by simp
        moreover have "sum_list (map snd ((buff, k) # ss)) = length buff"
          using su kl by simp
        moreover have "concat (map (\<lambda>(p, k). take k p) ((buff, k) # ss)) = buff"
          using co by simp
        ultimately show ?thesis by blast
      qed
    qed
  qed
qed

lemma write_loop_succeeds:
  "\<forall>h p w. p \<noteq> [] \<longrightarrow> (\<exists>k w'. send api h p w = (Inr k, w') \<and> 0 < k \<and> k \<le> length p) \<Longrightarrow>
   sent + length buff = hv \<Longrightarrow> \<exists>w'. write_loop api h sent hv buff w = (Inr (), w')"
proof (induction api h sent hv buff w rule: write_loop.induct)
  case (1 api h sent hv buff w)
  show ?case
  proof (cases "sent < hv")
    case False
    then show ?thesis by (simp add: write_loop.simps)
  next
    case True
    with "1.prems"(2) have ne: "buff \<noteq> []" by auto
    with "1.prems"(1) obtain k w1 where s: "send api h buff w = (Inr k, w1)"
      and k: "0 < k" "k \<le> length buff" by blast
    from k "1.prems"(2) have inv: "sent + k + length (drop k buff) = hv" by simp
    from k have k0: "k \<noteq> 0" by simp
    from "1.IH" [OF True s [symmetric] refl k0 "1.prems"(1) inv]
    obtain w' where "write_loop api h (sent + k) hv (drop k buff) w1 = (Inr (), w')" by blast
    with True s k0 have "write_loop api h sent hv buff w = (Inr (), w')"
      by (simp add: write_loop.simps)
    then show ?thesis by blast
  qed
qed

lemma write_loop_mock_10:
  "write_loop (logged_api (mock_api (Inr []) [] 3 ''linux'')) 0 0
      (length [0, 1, 2, 3, 4, 5, 6, 7, 8, 9 :: byte])
      [0, 1, 2, 3, 4, 5, 6, 7, 8, 9] ([], \<lparr>next_sock = 1, recv_script = []\<rparr>)
     = (Inr (),
        [SysSend 0 [0, 1, 2, 3, 4, 5, 6, 7, 8, 9] (Inr 3),
         SysSend 0 [3, 4, 5, 6, 7, 8, 9] (Inr 3),
         SysSend 0 [6, 7, 8, 9] (Inr 3),
         SysSend 0 [9] (Inr 1)],
        \<lparr>next_sock = 1, recv_script = []\<rparr>)"
  by (simp add: write_loop.simps mock_api_def)

text \<open>
  C5. \<^verbatim>\<open>write(buff)\<close> with a handle, over any socket library, with its calls recorded.
  The transport itself is left as it was. A \<^verbatim>\<open>send\<close> that takes zero bytes makes
  \<^verbatim>\<open>write\<close> raise the \<open>TTransportException\<close> of type \<open>END_OF_FILE\<close>. When \<^verbatim>\<open>write\<close> returns,
  over a \<^verbatim>\<open>send\<close> that never takes more than it is given, the calls it has made are
  \<^verbatim>\<open>send\<close> calls on the handle whose counts add up to the length of the buffer and
  whose accepted prefixes, in order, are the buffer. Over a \<^verbatim>\<open>send\<close> that always takes
  at least one byte of a non-empty payload, \<^verbatim>\<open>write\<close> does return. Over the scripted
  library whose \<^verbatim>\<open>send\<close> takes three bytes at most, writing ten bytes makes exactly
  four \<^verbatim>\<open>send\<close> calls, taking 3, 3, 3 and 1 bytes.
\<close>

theorem TSocket_write_sends:
  "handle s = Some h \<longrightarrow>
     (TSocket_write (logged_api api) buff s (lg, w) = (r, s', lg', w') \<longrightarrow>
        s' = s
        \<and> (\<exists>new. lg' = lg @ new
              \<and> (\<forall>p. SysSend h p (Inr 0) \<in> set new \<longrightarrow>
                    r = Inl (TTransportException END_OF_FILE ''TSocket sent 0 bytes''))))
   \<and> ((\<forall>h p w k w'. send api h p w = (Inr k, w') \<longrightarrow> k \<le> length p)
        \<and> TSocket_write (logged_api api) buff s (lg, w) = (Inr (), s', lg', w') \<longrightarrow>
        (\<exists>ss. lg' = lg @ map (\<lambda>(p, k). SysSend h p (Inr k)) ss
              \<and> sum_list (map snd ss) = length buff
              \<and> concat (map (\<lambda>(p, k). take k p) ss) = buff))
   \<and> ((\<forall>h p w. p \<noteq> [] \<longrightarrow>
            (\<exists>k w'. send api h p w = (Inr k, w') \<and> 0 < k \<and> k \<le> length p)) \<longrightarrow>
        (\<exists>w'. TSocket_write api buff s w = (Inr (), s, w')))
   \<and> TSocket_write (logged_api (mock_api (Inr []) [] 3 ''linux''))
        [0, 1, 2, 3, 4, 5, 6, 7, 8, 9] (setHandle (Some 0) (TSocket_init ''localhost'' 9090 None))
        ([], \<lparr>next_sock = 1, recv_script = []\<rparr>)
      = (Inr (), setHandle (Some 0) (TSocket_init ''localhost'' 9090 None),
         [SysSend 0 [0, 1, 2, 3, 4, 5, 6, 7, 8, 9] (Inr 3),
          SysSend 0 [3, 4, 5, 6, 7, 8, 9] (Inr 3),
          SysSend 0 [6, 7, 8, 9] (Inr 3),
          SysSend 0 [9] (Inr 1)],
         \<lparr>next_sock = 1, recv_script = []\<rparr>)"
proof (intro impI conjI)
  assume hd: "handle s = Some h"
  assume a: "TSocket_write (logged_api api) buff s (lg, w) = (r, s', lg', w')"
  from hd a show "s' = s" by (auto simp: TSocket_write_def split: prod.splits)
  from hd a have "write_loop (logged_api api) h 0 (length buff) buff (lg, w) = (r, lg', w')"
    by (auto simp: TSocket_write_def split: prod.splits)
  then show "\<exists>new. lg' = lg @ new
              \<and> (\<forall>p. SysSend h p (Inr 0) \<in> set new \<longrightarrow>
                    r = Inl (TTransportException END_OF_FILE ''TSocket sent 0 bytes''))"
    by (rule write_loop_zero)
next
  assume hd: "handle s = Some h"
  assume a: "(\<forall>h p w k w'. send api h p w = (Inr k, w') \<longrightarrow> k \<le> length p)
        \<and> TSocket_write (logged_api api) buff s (lg, w) = (Inr (), s', lg', w')"
  with hd have "write_loop (logged_api api) h 0 (length buff) buff (lg, w) = (Inr (), lg', w')"
    by (auto simp: TSocket_write_def split: prod.splits)
  with a show "\<exists>ss. lg' = lg @ map (\<lambda>(p, k). SysSend h p (Inr k)) ss
              \<and> sum_list (map snd ss) = length buff
              \<and> concat (map (\<lambda>(p, k). take k p) ss) = buff"
    using write_loop_trace [of api h 0 "length buff" buff lg w lg' w'] by simp
next
  assume hd: "handle s = Some h"
  assume g: "\<forall>h p w. p \<noteq> [] \<longrightarrow>
            (\<exists>k w'. send api h p w = (Inr k, w') \<and> 0 < k \<and> k \<le> length p)"
  from write_loop_succeeds [OF g, of 0 buff "length buff" h w]
  obtain w' where "write_loop api h 0 (length buff) buff w = (Inr (), w')" by auto
  with hd show "\<exists>w'. TSocket_write api buff s w = (Inr (), s, w')"
    by (simp add: TSocket_write_def)
next
  show "TSocket_write (logged_api (mock_api (Inr []) [] 3 ''linux''))
        [0, 1, 2, 3, 4, 5, 6, 7, 8, 9] (setHandle (Some 0) (TSocket_init ''localhost'' 9090 None))
        ([], \<lparr>next_sock = 1, recv_script = []\<rparr>)
      = (Inr (), setHandle (Some 0) (TSocket_init ''localhost'' 9090 None),
         [SysSend 0 [0, 1, 2, 3, 4, 5, 6, 7, 8, 9] (Inr 3),
          SysSend 0 [3, 4, 5, 6, 7, 8, 9] (Inr 3),
          SysSend 0 [6, 7, 8, 9] (Inr 3),
          SysSend 0 [9] (Inr 1)],
         \<lparr>next_sock = 1, recv_script = []\<rparr>)"
    using write_loop_mock_10 by (simp add: TSocket_write_def setHandle_def)
qed

theorem TSocket_write_sends_witness:
  "(\<exists>ss. [SysSend 0 [0, 1, 2, 3, 4, 5, 6, 7, 8, 9] (Inr 3),
           SysSend 0 [3, 4, 5, 6, 7, 8, 9] (Inr 3),
           SysSend 0 [6, 7, 8, 9] (Inr 3),
           SysSend 0 [9] (Inr 1)]
          = [] @ map (\<lambda>(p, k). SysSend 0 p (Inr k)) ss
        \<and> sum_list (map snd ss) = length [0, 1, 2, 3, 4, 5, 6, 7, 8, 9 :: byte]
        \<and> concat (map (\<lambda>(p, k). take k p) ss) = [0, 1, 2, 3, 4, 5, 6, 7, 8, 9 :: byte])
   \<and> (\<exists>w'. TSocket_write (mock_api (Inr []) [] 3 ''linux'')
          [0, 1, 2, 3, 4, 5, 6, 7, 8, 9] (setHandle (Some 0) (TSocket_init ''localhost'' 9090 None))
          \<lparr>next_sock = 1, recv_script = []\<rparr>
        = (Inr (), setHandle (Some 0) (TSocket_init ''localhost'' 9090 None), w'))"
proof -
  have h: "handle (setHandle (Some 0) (TSocket_init ''localhost'' 9090 None)) = Some 0"
    by (simp add: setHandle_def)
  have c: "\<forall>h p w k w'. send (mock_api (Inr []) [] 3 ''linux'') h p w = (Inr k, w') \<longrightarrow>
      k \<le> length p"
    by (auto simp: mock_api_def)
  have g: "\<forall>h p w. p \<noteq> [] \<longrightarrow>
      (\<exists>k w'. send (mock_api (Inr []) [] 3 ''linux'') h p w = (Inr k, w') \<and> 0 < k \<and> k \<le> length p)"
    by (auto simp: mock_api_def)
  note T = TSocket_write_sends [where api = "mock_api (Inr []) [] 3 ''linux''"
      and s = "setHandle (Some 0) (TSocket_init ''localhost'' 9090 None)" and h = 0
      and buff = "[0, 1, 2, 3, 4, 5, 6, 7, 8, 9]" and lg = "[]"
      and w = "\<lparr>next_sock = 1, recv_script = []\<rparr>" and r = "Inr ()"
      and s' = "setHandle (Some 0) (TSocket_init ''localhost'' 9090 None)"
      and lg' = "[SysSend 0 [0, 1, 2, 3, 4, 5, 6, 7, 8, 9] (Inr 3),
           SysSend 0 [3, 4, 5, 6, 7, 8, 9] (Inr 3),
           SysSend 0 [6, 7, 8, 9] (Inr 3),
           SysSend 0 [9] (Inr 1)]"
      and w' = "\<lparr>next_sock = 1, recv_script = []\<rparr>"]
  from T h c g show ?thesis by blast
qed

section \<open>Properties of TSocket.open\<close>




lemma open_message_handle [simp]: "open_message (s\<lparr>handle := ho\<rparr>) = open_message s"
  by (simp add: open_message_def split: option.splits)













lemma format_d_9090: "format_d 9090 = ''9090''"
  by (simp add: format_d_def string_of_nat.simps)


text \<open>
  C3. The handle after an \<^verbatim>\<open>open()\<close> that raised. Over three candidates that all refuse
  the connection, \<^verbatim>\<open>open()\<close> raises the \<open>TTransportException\<close> of type \<open>NOT_OPEN\<close> and
  leaves \<^verbatim>\<open>self.handle\<close> set to the socket made for the last candidate, which never
  connected: \<^verbatim>\<open>isOpen()\<close> is true of that transport.
\<close>

theorem TSocket_open_failed_keeps_handle:
  "TSocket_open (mock_api (Inr three_candidates) [] 3 ''linux'')
      (TSocket_init ''localhost'' 9090 None) \<lparr>next_sock = 0, recv_script = []\<rparr>
     = (Inl (TTransportException NOT_OPEN ''Could not connect to localhost:9090''),
        (TSocket_init ''localhost'' 9090 None)\<lparr>handle := Some 2\<rparr>,
        \<lparr>next_sock = 3, recv_script = []\<rparr>)
   \<and> TSocket_isOpen ((TSocket_init ''localhost'' 9090 None)\<lparr>handle := Some 2\<rparr>)"
  by (simp add: TSocket_open_def resolveAddr_def TSocket_init_def three_candidates_def
      mock_api_def res_0_def res_1_def res_4_def open_message_def format_d_9090
      TSocket_isOpen_def NOT_OPEN_def)


end
